theory Spec2Isabelle
  imports Complex_Main
begin

section \<open>JavaScript strings and the procedure-name splitter (feegow.js)\<close>

text \<open>
  A JavaScript string is a sequence of UTF-16 code units. Every character the source
  names in a pattern or a regular expression (the classes \<open>[A-Za-zU+00C0-U+00FA]\<close>, \<open>\d\<close>, \<open>\s\<close>
  and the ordinal sign U+00BA) lies in the Latin-1 range, so a string is modelled as a
  \<open>char list\<close> whose characters are the code units 0..255; \<open>of_char c\<close> is the code unit.
  Names with a code unit above 255 are outside the model.
\<close>

definition isSpaceChar :: "char \<Rightarrow> bool" where
  \<comment> \<open>\<open>\s\<close> and the characters \<open>trim()\<close> strips: TAB, LF, VT, FF, CR, SPACE, NBSP.\<close>
  "isSpaceChar c = (let n = (of_char c :: nat) in (9 \<le> n \<and> n \<le> 13) \<or> n = 32 \<or> n = 160)"

definition isLetterChar :: "char \<Rightarrow> bool" where
  \<comment> \<open>the class \<open>[A-Za-zU+00C0-U+00FA]\<close>: U+0041..U+005A, U+0061..U+007A, U+00C0..U+00FA.\<close>
  "isLetterChar c = (let n = (of_char c :: nat) in
     (65 \<le> n \<and> n \<le> 90) \<or> (97 \<le> n \<and> n \<le> 122) \<or> (192 \<le> n \<and> n \<le> 250))"

definition isDigitChar :: "char \<Rightarrow> bool" where
  \<comment> \<open>the class \<open>\d\<close>.\<close>
  "isDigitChar c = (let n = (of_char c :: nat) in 48 \<le> n \<and> n \<le> 57)"

definition ordinalChar :: char where
  \<comment> \<open>the masculine ordinal indicator, U+00BA.\<close>
  "ordinalChar = CHR 0xBA"

definition commaChar :: char where
  "commaChar = CHR 0x2C"

definition letterAhead :: "string \<Rightarrow> bool" where
  \<comment> \<open>the lookahead \<open>(?=\s*[A-Za-zU+00C0-U+00FA])\<close>, tried on the text after a comma.\<close>
  "letterAhead rest =
     (case dropWhile isSpaceChar rest of [] \<Rightarrow> False | c # _ \<Rightarrow> isLetterChar c)"

definition ordinalAhead :: "string \<Rightarrow> bool" where
  \<comment> \<open>the lookahead \<open>(?=\s*\d+U+00BA)\<close>, tried on the text after a comma.\<close>
  "ordinalAhead rest =
     (let r = dropWhile isSpaceChar rest in
      takeWhile isDigitChar r \<noteq> [] \<and>
      (case dropWhile isDigitChar r of [] \<Rightarrow> False | c # _ \<Rightarrow> c = ordinalChar))"

definition separatorAhead :: "string \<Rightarrow> bool" where
  \<comment> \<open>a comma is a separator when one of the two alternatives of the regex matches.\<close>
  "separatorAhead rest = (letterAhead rest \<or> ordinalAhead rest)"

fun splitNomes :: "string \<Rightarrow> string list" where
  \<comment> \<open>\<open>s.split(/,(?=\s*[A-Za-zU+00C0-U+00FA])|,(?=\s*\d+U+00BA)/)\<close>: the pieces between separator commas.\<close>
  "splitNomes [] = [[]]"
| "splitNomes (c # cs) =
     (if c = commaChar \<and> separatorAhead cs then [] # splitNomes cs
      else (case splitNomes cs of [] \<Rightarrow> [[c]] | t # ts \<Rightarrow> (c # t) # ts))"

definition trim :: "string \<Rightarrow> string" where
  "trim s = rev (dropWhile isSpaceChar (rev (dropWhile isSpaceChar s)))"

definition reportNames :: "string option \<Rightarrow> string list" where
  \<comment> \<open>\<open>NomeProcedimento ? NomeProcedimento.split(...).map(n => n.trim()).filter(n => n) : []\<close>\<close>
  "reportNames NomeProcedimento =
     (case NomeProcedimento of
        None \<Rightarrow> []
      | Some s \<Rightarrow> if s = [] then [] else filter (\<lambda>n. n \<noteq> []) (map trim (splitNomes s)))"



section \<open>Procedure classification (excel.js) and the group mapping (feegow.js)\<close>

text \<open>The spreadsheet columns of \<open>COLUMNS\<close> that classification can name.\<close>

definition COLUMNS :: "(string \<times> string) list" where
  "COLUMNS =
    [(''DATA'', ''A''), (''NOME'', ''B''), (''VENDA'', ''C''),
     (''AVALIACAO'', ''D''), (''TRATAMENTO'', ''E''), (''DESCONTO'', ''F''),
     (''DR_RIGATTI'', ''G''), (''IMPLANTE'', ''H''), (''SORO_DR'', ''I''),
     (''TIRZEPATIDA'', ''J''), (''APLICACOES'', ''K''), (''ONLINE'', ''L''),
     (''COMISSAO'', ''M''), (''NUTRIS'', ''N''), (''EXTRA'', ''O''),
     (''ESTORNO_PROC'', ''P''),
     (''DINHEIRO'', ''Q''), (''SICOOB'', ''R''), (''SAFRA'', ''S''), (''PIX_SAFRA'', ''T''),
     (''INFINITE'', ''U''), (''PIX'', ''V''), (''CHEQUE'', ''W''), (''BOLETO'', ''X''),
     (''OBSERVACAO'', ''AG''),
     (''JUROS_CARTAO'', ''Z''), (''TX_SICOOB'', ''AA''), (''TX_INFINITE'', ''AB''),
     (''TX_SAFRA'', ''AC''), (''ESTORNO'', ''AD''), (''NP_ABERTA'', ''AE''),
     (''BOLETO_2'', ''AF'')]"

definition AVALIACAO :: string where "AVALIACAO = ''D''"
definition TRATAMENTO :: string where "TRATAMENTO = ''E''"
definition DESCONTO :: string where "DESCONTO = ''F''"
definition DR_RIGATTI :: string where "DR_RIGATTI = ''G''"
definition IMPLANTE :: string where "IMPLANTE = ''H''"
definition SORO_DR :: string where "SORO_DR = ''I''"
definition TIRZEPATIDA :: string where "TIRZEPATIDA = ''J''"
definition APLICACOES :: string where "APLICACOES = ''K''"
definition ONLINE :: string where "ONLINE = ''L''"
definition COMISSAO :: string where "COMISSAO = ''M''"
definition NUTRIS :: string where "NUTRIS = ''N''"
definition EXTRA :: string where "EXTRA = ''O''"
definition ESTORNO_PROC :: string where "ESTORNO_PROC = ''P''"
definition JUROS_CARTAO :: string where "JUROS_CARTAO = ''Z''"

definition PROCEDURE_MAPPING :: "(string \<times> string) list" where
  \<comment> \<open>the entries in the order of the object literal, which is the order of \<open>Object.entries\<close>;
      U+00E1 is the accented letter of the pattern \<open>injetavel\<close> written with an accent.\<close>
  "PROCEDURE_MAPPING =
    [(''nutricional'', NUTRIS),
     (''avalia'', AVALIACAO),
     (''rigatti'', DR_RIGATTI),
     (''recompra'', DR_RIGATTI),
     (''protocolo'', DR_RIGATTI),
     (''online'', ONLINE),
     (''consulta'', AVALIACAO),
     (''victor'', EXTRA),
     (''implante'', IMPLANTE),
     (''soro'', SORO_DR),
     (''soroterapia'', SORO_DR),
     (''noripurum'', SORO_DR),
     (''tirzepatida'', TIRZEPATIDA),
     (''injet'' @ [CHR 0xE1] @ ''vel'', APLICACOES),
     (''injetavel'', APLICACOES),
     (''cipionato'', APLICACOES),
     (''testosterona'', APLICACOES),
     (''blend'', APLICACOES),
     (''gh '', APLICACOES),
     (''genotropin'', APLICACOES),
     (''omnitrope'', APLICACOES),
     (''nutri'', NUTRIS),
     (''tratamento proposto'', DR_RIGATTI),
     (''juros'', JUROS_CARTAO),
     (''estorno'', ESTORNO_PROC)]"

definition lowerChar :: "char \<Rightarrow> char" where
  \<comment> \<open>\<open>toLowerCase\<close> on one Latin-1 code unit: U+0041..U+005A and U+00C0..U+00DE
      (but the multiplication sign U+00D7) move up by 32, which sets bit 5.\<close>
  "lowerChar c =
     (let n = (of_char c :: nat) in
      if (65 \<le> n \<and> n \<le> 90) \<or> (192 \<le> n \<and> n \<le> 222 \<and> n \<noteq> 215)
      then (case c of Char b0 b1 b2 b3 b4 b5 b6 b7 \<Rightarrow> Char b0 b1 b2 b3 b4 True b6 b7)
      else c)"

definition toLowerCase :: "string \<Rightarrow> string" where
  "toLowerCase s = map lowerChar s"

fun includes_str :: "string \<Rightarrow> string \<Rightarrow> bool" where
  \<comment> \<open>JavaScript's \<open>s.includes(p)\<close>: \<open>p\<close> occurs in \<open>s\<close> as a contiguous substring.\<close>
  "includes_str [] p = (p = [])"
| "includes_str (c # cs) p = (take (length p) (c # cs) = p \<or> includes_str cs p)"

record classification =
  column :: "string option"
  classificadoPor :: string

type_synonym group_mapping = "int \<Rightarrow> string option option"
  \<comment> \<open>the JavaScript \<open>Map\<close> from procedure id to column: \<open>None\<close> is \<open>undefined\<close> (no entry),
      \<open>Some None\<close> an entry holding \<open>null\<close>, \<open>Some (Some c)\<close> an entry holding the string \<open>c\<close>.\<close>

definition truthyId :: "int option \<Rightarrow> bool" where
  \<comment> \<open>an id used as a condition: \<open>null\<close>, \<open>undefined\<close> and \<open>0\<close> are falsy.\<close>
  "truthyId i = (case i of None \<Rightarrow> False | Some n \<Rightarrow> n \<noteq> 0)"

fun scanPatterns :: "(string \<times> string) list \<Rightarrow> string \<Rightarrow> classification" where
  \<comment> \<open>the \<open>for\<close> loop over the entries, and the fallback after it.\<close>
  "scanPatterns [] normalizedName = \<lparr>column = Some EXTRA, classificadoPor = ''fallback''\<rparr>"
| "scanPatterns ((pattern, col) # entries) normalizedName =
     (if includes_str normalizedName (toLowerCase pattern)
      then \<lparr>column = Some col, classificadoPor = ''nome''\<rparr>
      else scanPatterns entries normalizedName)"

definition columnById :: "group_mapping option \<Rightarrow> int option \<Rightarrow> string option option" where
  \<comment> \<open>\<open>groupMapping.get(Number(procedureId))\<close> under the guard \<open>procedureId && groupMapping\<close>.\<close>
  "columnById groupMapping procedureId =
     (case (procedureId, groupMapping) of
        (Some i, Some m) \<Rightarrow> if i \<noteq> 0 then m i else None
      | _ \<Rightarrow> None)"

definition classifyProcedure ::
    "group_mapping option \<Rightarrow> string \<Rightarrow> int option \<Rightarrow> classification" where
  "classifyProcedure groupMapping procedureName procedureId =
     (case columnById groupMapping procedureId of
        Some byId \<Rightarrow>
          \<lparr>column = (case byId of
                        None \<Rightarrow> None
                      | Some c \<Rightarrow> (case map_of COLUMNS c of Some l \<Rightarrow> Some l | None \<Rightarrow> Some c)),
           classificadoPor = ''id''\<rparr>
      | None \<Rightarrow> scanPatterns PROCEDURE_MAPPING (toLowerCase procedureName))"

definition identifyProcedureColumn ::
    "group_mapping option \<Rightarrow> string \<Rightarrow> int option \<Rightarrow> string option" where
  "identifyProcedureColumn groupMapping procedureName procedureId =
     column (classifyProcedure groupMapping procedureName procedureId)"

text \<open>\<open>fetchGroupMapping\<close>: the groups of the platform, each with its member procedures.\<close>

record procedure_group =
  group_id :: int
  procedimentos :: "int list option"
    \<comment> \<open>the ids of the member procedures; \<open>None\<close> when the field is missing, on which the
        \<open>for ... of\<close> throws and the surrounding \<open>catch\<close> ends the loading.\<close>

definition GROUP_TO_COLUMN :: "int \<Rightarrow> string option" where
  "GROUP_TO_COLUMN g =
     (if g = 1 then Some ''IMPLANTE''
      else if g = 2 then Some ''APLICACOES''
      else if g = 4 then Some ''SORO_DR''
      else if g = 5 then Some ''EXTRA''
      else None)"

definition OVERRIDES :: "(int \<times> string option) list" where
  "OVERRIDES =
    [(58, Some ''TIRZEPATIDA''), (144, Some ''TIRZEPATIDA''),
     (16, Some ''AVALIACAO''), (17, Some ''ONLINE''), (18, Some ''NUTRIS''),
     (19, Some ''ONLINE''), (20, None), (22, Some ''NUTRIS''), (23, Some ''AVALIACAO''),
     (24, Some ''NUTRIS''), (104, Some ''DR_RIGATTI''), (105, Some ''DR_RIGATTI''),
     (106, Some ''DR_RIGATTI''), (107, Some ''DR_RIGATTI''), (108, Some ''DR_RIGATTI''),
     (109, Some ''NUTRIS''), (110, Some ''NUTRIS''), (111, Some ''NUTRIS''),
     (112, Some ''NUTRIS''), (137, Some ''ONLINE'')]"

definition setColumn :: "string option \<Rightarrow> int \<Rightarrow> group_mapping \<Rightarrow> group_mapping" where
  \<comment> \<open>the body of the inner loop for one procedure id, \<open>groupColumn\<close> being the group's column.\<close>
  "setColumn groupColumn procId mapping =
     (case map_of OVERRIDES procId of
        Some col \<Rightarrow>
          (case col of
             Some c \<Rightarrow> if c \<noteq> [] then mapping(procId \<mapsto> Some c) else mapping
           | None \<Rightarrow> mapping)
      | None \<Rightarrow>
          (case groupColumn of
             Some g \<Rightarrow> if g \<noteq> [] then mapping(procId \<mapsto> Some g) else mapping
           | None \<Rightarrow> mapping))"

fun setColumns :: "string option \<Rightarrow> int list \<Rightarrow> group_mapping \<Rightarrow> group_mapping" where
  "setColumns groupColumn [] mapping = mapping"
| "setColumns groupColumn (p # ps) mapping =
     setColumns groupColumn ps (setColumn groupColumn p mapping)"

fun addGroups :: "procedure_group list \<Rightarrow> group_mapping \<Rightarrow> group_mapping" where
  "addGroups [] mapping = mapping"
| "addGroups (g # gs) mapping =
     (case procedimentos g of
        None \<Rightarrow> mapping
      | Some ps \<Rightarrow> addGroups gs (setColumns (GROUP_TO_COLUMN (group_id g)) ps mapping))"

definition loadGroups :: "procedure_group list option \<Rightarrow> group_mapping" where
  \<comment> \<open>the mapping built from the response of \<open>/api/procedures/groups\<close>; \<open>None\<close> is a failed
      request, which leaves the mapping empty.\<close>
  "loadGroups response =
     (case response of None \<Rightarrow> Map.empty | Some groups \<Rightarrow> addGroups groups Map.empty)"

section \<open>Transactions, proposals, invoices and the platform's answers (feegow.js)\<close>

text \<open>
  A date arrives as the text \<open>DD/MM/YYYY\<close> and is read by
  \<open>split('/').map(Number)\<close>; the model keeps the three numbers. Money amounts and
  quantities are JavaScript numbers, modelled as reals. A field that may be \<open>null\<close> or
  missing is an \<open>option\<close>.
\<close>

record date =
  dia :: int
  mes :: int
  ano :: int

record transaction =
  NumeroInvoice :: "int option"
  NomeProcedimento :: "string option"
  Data :: date
  PacienteID :: "int option"
  ProcedimentoID :: "int option"
  Value :: real
  Quantidade :: "real option"

record proposal_item =
  item_procedimento_id :: int
  item_nome :: string
  item_valor :: real
  item_quantidade :: "real option"
  item_desconto :: "real option"
  item_acrescimo :: "real option"

record proposal =
  proposal_id :: int
  status :: string
  proposal_value :: real
  proposal_procedimentos :: "proposal_item list"
    \<comment> \<open>\<open>procedimentos.data\<close>; a missing field is read as the empty list everywhere
        (\<open>procedimentos?.data || []\<close>, \<open>procedimentos?.data?.length\<close>).\<close>

record invoice_item =
  inv_procedimento_id :: int
  inv_valor :: real
  inv_quantidade :: "real option"
  inv_desconto :: "real option"

record procedure =
  proc_nome :: "string option"

record detailed_item =
  procedimento_id :: "int option"
  nome :: string
  valor :: real
  quantidade :: real
  desconto :: "real option"
  acrescimo :: "real option"

record appointment =
  apt_data :: date
  telemedicina :: bool
  notas :: "string option"

record appointments_result =
  appointments :: "appointment list"
  appts_apiError :: bool

text \<open>
  The platform, as the client's functions see it. Each field is what one endpoint
  answers; the wrappers \<open>fetchInvoiceProposalDate\<close>, \<open>fetchInvoiceItems\<close> and
  \<open>fetchProcedure\<close> catch every failure and return \<open>null\<close> or \<open>[]\<close>, so their fields
  give the wrapper's result. The appointment search is asked once per attempt, so its
  answer may depend on the attempt; its window of seven days around the date is a
  function of the date, which the field takes in its place.
\<close>

record api =
  financialMovement :: "date \<Rightarrow> date \<Rightarrow> transaction list option"
    \<comment> \<open>\<open>fetchTransactions\<close>; \<open>None\<close> when it throws.\<close>
  invoiceProposalDate :: "int \<Rightarrow> date option"
  proposalList :: "int \<Rightarrow> date \<Rightarrow> proposal list option"
    \<comment> \<open>\<open>GET /api/proposal/list\<close>: the content, or \<open>None\<close> when the request fails.\<close>
  invoiceItems :: "int \<Rightarrow> date \<Rightarrow> invoice_item list"
  procedureById :: "int \<Rightarrow> procedure option"
  procedureGroups :: "procedure_group list option"
  appointsSearch :: "nat \<Rightarrow> int option \<Rightarrow> date \<Rightarrow> int option + appointment list"
    \<comment> \<open>attempt, patient, date: \<open>Inr\<close> the content, \<open>Inl\<close> the HTTP status of a failure
        (\<open>None\<close> for a network failure).\<close>
  utcOffsetMs :: int
    \<comment> \<open>local time minus UTC, taken as constant (no daylight saving, as in the
        container's \<open>TZ=America/Sao_Paulo\<close> since 2019).\<close>

text \<open>The module-level variables of feegow.js.\<close>

record state =
  proceduresCache :: "int \<Rightarrow> procedure option"
  proposalsCache :: "int \<times> date \<Rightarrow> proposal list option"
  groupsCache :: "group_mapping option"
  usedProposalIds :: "int set"
  appointmentsCache :: "int option \<Rightarrow> appointments_result option"

datatype js_error = Error | TypeError

definition fetchGroupMapping :: "api \<Rightarrow> state \<Rightarrow> state \<times> group_mapping" where
  "fetchGroupMapping a s =
     (case groupsCache s of
        Some m \<Rightarrow> (s, m)
      | None \<Rightarrow> (let mapping = loadGroups (procedureGroups a)
                 in (s\<lparr>groupsCache := Some mapping\<rparr>, mapping)))"

definition fetchProcedureWithCache :: "api \<Rightarrow> state \<Rightarrow> int \<Rightarrow> state \<times> procedure option" where
  "fetchProcedureWithCache a s procedureId =
     (case proceduresCache s procedureId of
        Some p \<Rightarrow> (s, Some p)
      | None \<Rightarrow>
          (case procedureById a procedureId of
             Some p \<Rightarrow> (s\<lparr>proceduresCache := (proceduresCache s)(procedureId \<mapsto> p)\<rparr>, Some p)
           | None \<Rightarrow> (s, None)))"

definition fetchPatientProposals :: "api \<Rightarrow> state \<Rightarrow> int \<Rightarrow> date \<Rightarrow> state \<times> proposal list" where
  "fetchPatientProposals a s pacienteId d =
     (case proposalsCache s (pacienteId, d) of
        Some cached \<Rightarrow> (s, cached)
      | None \<Rightarrow>
          (let proposals =
                 (case proposalList a pacienteId d of
                    None \<Rightarrow> []
                  | Some content \<Rightarrow> filter (\<lambda>p. status p = ''Executada'') content)
           in (s\<lparr>proposalsCache := (proposalsCache s)((pacienteId, d) \<mapsto> proposals)\<rparr>,
               proposals)))"

subsection \<open>The proposal matcher\<close>

definition hasProcedure :: "int \<Rightarrow> proposal \<Rightarrow> bool" where
  \<comment> \<open>\<open>(p.procedimentos?.data || []).some(proc => proc.procedimento_id === id)\<close>\<close>
  "hasProcedure procId p =
     list_ex (\<lambda>proc. item_procedimento_id proc = procId) (proposal_procedimentos p)"

definition valueDistance :: "transaction \<Rightarrow> proposal \<Rightarrow> real" where
  \<comment> \<open>\<open>Math.abs(p.value - transaction.Value)\<close>, the key of the comparator.\<close>
  "valueDistance t p = \<bar>proposal_value p - Value t\<bar>"

definition matchCount :: "int set \<Rightarrow> proposal \<Rightarrow> nat" where
  \<comment> \<open>\<open>propProcIds.filter(id => invoiceProcIds.has(id)).length\<close>\<close>
  "matchCount invoiceProcIds p =
     length (filter (\<lambda>i. i \<in> invoiceProcIds)
               (map item_procedimento_id (proposal_procedimentos p)))"

fun bestOverlap ::
    "int set \<Rightarrow> proposal list \<Rightarrow> proposal option \<Rightarrow> nat \<Rightarrow> proposal option \<times> nat" where
  \<comment> \<open>the loop over the proposals, with \<open>bestProposal\<close> and \<open>bestMatchCount\<close>.\<close>
  "bestOverlap ids [] bestProposal bestMatchCount = (bestProposal, bestMatchCount)"
| "bestOverlap ids (p # ps) bestProposal bestMatchCount =
     (if matchCount ids p > bestMatchCount
      then bestOverlap ids ps (Some p) (matchCount ids p)
      else bestOverlap ids ps bestProposal bestMatchCount)"

definition findMatchingProposal :: "api \<Rightarrow> transaction \<Rightarrow> proposal list \<Rightarrow> proposal option" where
  \<comment> \<open>\<open>candidates.sort(cmp)[0]\<close>: the sort is stable and \<open>cmp\<close> compares the
      distances, so the sorted array is \<open>sort_key\<close> by the distance.\<close>
  "findMatchingProposal a t proposals =
     (if proposals = [] then None
      else
        let isMultiProcedure = (length (reportNames (NomeProcedimento t)) > 1) in
        if \<not> isMultiProcedure \<and> truthyId (ProcedimentoID t) then
          (case ProcedimentoID t of
             None \<Rightarrow> None
           | Some procId \<Rightarrow>
               (case filter (hasProcedure procId) proposals of
                  [] \<Rightarrow> None
                | [c] \<Rightarrow> Some c
                | c # c' # cs \<Rightarrow>
                    (case sort_key (valueDistance t) (c # c' # cs) of
                       [] \<Rightarrow> None
                     | best # _ \<Rightarrow> Some best)))
        else if isMultiProcedure \<and> truthyId (NumeroInvoice t) then
          (case NumeroInvoice t of
             None \<Rightarrow> None
           | Some invoiceId \<Rightarrow>
               (let items = invoiceItems a invoiceId (Data t) in
                if items \<noteq> [] then
                  (case bestOverlap (set (map inv_procedimento_id items)) proposals None 0 of
                     (Some bestProposal, bestMatchCount) \<Rightarrow>
                       if bestMatchCount \<ge> 2 then Some bestProposal else None
                   | (None, _) \<Rightarrow> None)
                else None))
        else None)"

subsection \<open>Dates as JavaScript reads them\<close>

definition msPerDay :: int where
  "msPerDay = 1000 * 60 * 60 * 24"

definition DayFromYear :: "int \<Rightarrow> int" where
  "DayFromYear y =
     365 * (y - 1970) + (y - 1969) div 4 - (y - 1901) div 100 + (y - 1601) div 400"

definition InLeapYear :: "int \<Rightarrow> bool" where
  "InLeapYear y = (y mod 4 = 0 \<and> (y mod 100 \<noteq> 0 \<or> y mod 400 = 0))"

definition monthStart :: "int \<Rightarrow> bool \<Rightarrow> int" where
  \<comment> \<open>the day of the year on which month \<open>m\<close> (0 = January) starts.\<close>
  "monthStart m leap =
     [0, 31, 59, 90, 120, 151, 181, 212, 243, 273, 304, 334] ! nat m
       + (if leap \<and> m \<ge> 2 then 1 else 0)"

definition MakeDay :: "int \<Rightarrow> int \<Rightarrow> int \<Rightarrow> int" where
  \<comment> \<open>ECMAScript's MakeDay: the day number of year, month (0-based, any integer) and day
      of month (any integer); months and days out of range carry over.\<close>
  "MakeDay year month dt =
     (let ym = year + month div 12; mn = month mod 12
      in DayFromYear ym + monthStart mn (InLeapYear ym) + dt - 1)"

definition dayNumber :: "date \<Rightarrow> int" where
  \<comment> \<open>the day number of \<open>new Date(year, month - 1, day)\<close>: a year 0..99 means 1900 + year.\<close>
  "dayNumber d =
     (let y = ano d;
          yr = (if 0 \<le> y \<and> y \<le> 99 then 1900 + y else y)
      in MakeDay yr (mes d - 1) (dia d))"

definition getTime :: "int \<Rightarrow> date \<Rightarrow> int option" where
  \<comment> \<open>\<open>new Date(year, month - 1, day).getTime()\<close>, local midnight as UTC milliseconds;
      a time beyond 8.64e15 ms is NaN (\<open>None\<close>).\<close>
  "getTime offsetMs d =
     (let t = dayNumber d * msPerDay - offsetMs
      in if \<bar>t\<bar> > 8640000000000000 then None else Some t)"

definition daysDiff :: "int \<Rightarrow> date \<Rightarrow> date \<Rightarrow> real option" where
  \<comment> \<open>\<open>Math.abs(transactionMs - proposalMs) / (1000 * 60 * 60 * 24)\<close>; \<open>None\<close> is NaN.\<close>
  "daysDiff offsetMs proposalDate transactionDate =
     (case (getTime offsetMs proposalDate, getTime offsetMs transactionDate) of
        (Some proposalMs, Some transactionMs) \<Rightarrow>
          Some (real_of_int \<bar>transactionMs - proposalMs\<bar> / real_of_int msPerDay)
      | _ \<Rightarrow> None)"

subsection \<open>The transaction enricher\<close>

record enriched =
  source_transaction :: transaction
    \<comment> \<open>the fields copied by \<open>...transaction\<close>.\<close>
  paymentOnly :: bool
  fonteItens :: string
  detailedItems :: "detailed_item list"
  usedProposal :: "int option"
    \<comment> \<open>not a field of the JavaScript object: the \<open>proposal_id\<close> this enrichment added to
        \<open>usedProposalIds\<close> (the one its debug line prints), kept to state what was consumed.\<close>

definition quantityOr1 :: "real option \<Rightarrow> real" where
  \<comment> \<open>\<open>q || 1\<close>\<close>
  "quantityOr1 q = (case q of None \<Rightarrow> 1 | Some x \<Rightarrow> if x = 0 then 1 else x)"

definition numberOr0 :: "real option \<Rightarrow> real" where
  \<comment> \<open>\<open>Number(x) || 0\<close> and \<open>x || 0\<close>\<close>
  "numberOr0 x = (case x of None \<Rightarrow> 0 | Some v \<Rightarrow> v)"

definition isPaymentOnly :: "api \<Rightarrow> transaction \<Rightarrow> bool" where
  \<comment> \<open>the first block of \<open>enrichTransactionWithItems\<close>: whether it returns there. The
      source compares the two date texts with \<open>!==\<close> before it parses them; two texts
      with the same three numbers give a difference of 0 days, so the test on the numbers
      decides the same.\<close>
  "isPaymentOnly a t =
     (case NumeroInvoice t of
        None \<Rightarrow> False
      | Some invoiceId \<Rightarrow>
          if invoiceId = 0 then False
          else
            (case invoiceProposalDate a invoiceId of
               None \<Rightarrow> False
             | Some proposalDate \<Rightarrow>
                 if proposalDate \<noteq> Data t then
                   (case daysDiff (utcOffsetMs a) proposalDate (Data t) of
                      None \<Rightarrow> False
                    | Some dd \<Rightarrow> dd > 30)
                 else False))"

definition proposalItems :: "proposal \<Rightarrow> detailed_item list" where
  "proposalItems p =
     map (\<lambda>proc.
            \<lparr>procedimento_id = Some (item_procedimento_id proc),
             nome = item_nome proc,
             valor = item_valor proc * quantityOr1 (item_quantidade proc),
             quantidade = quantityOr1 (item_quantidade proc),
             desconto = Some (numberOr0 (item_desconto proc)),
             acrescimo = Some (numberOr0 (item_acrescimo proc))\<rparr>)
         (proposal_procedimentos p)"

definition tryProposal :: "api \<Rightarrow> state \<Rightarrow> transaction \<Rightarrow> state \<times> proposal option" where
  \<comment> \<open>the block \<open>if (transaction.PacienteID) { ... }\<close> up to the mark in
      \<open>usedProposalIds\<close>: the proposal it accepts, if any.\<close>
  "tryProposal a s t =
     (case PacienteID t of
        None \<Rightarrow> (s, None)
      | Some pac \<Rightarrow>
          if pac = 0 then (s, None)
          else
            (let (s1, proposals) = fetchPatientProposals a s pac (Data t);
                 availableProposals =
                   filter (\<lambda>p. proposal_id p \<notin> usedProposalIds s1) proposals
             in if availableProposals \<noteq> [] then
                  (case findMatchingProposal a t availableProposals of
                     None \<Rightarrow> (s1, None)
                   | Some matchedProposal \<Rightarrow>
                       if proposal_procedimentos matchedProposal \<noteq> [] then
                         (s1\<lparr>usedProposalIds :=
                               insert (proposal_id matchedProposal) (usedProposalIds s1)\<rparr>,
                          Some matchedProposal)
                       else (s1, None))
                else (s1, None)))"

definition digitChars :: string where
  "digitChars = ''0123456789''"

fun showNat :: "nat \<Rightarrow> string" where
  "showNat n =
     (if n < 10 then [digitChars ! n] else showNat (n div 10) @ [digitChars ! (n mod 10)])"

definition showInt :: "int \<Rightarrow> string" where
  \<comment> \<open>an integer inside a template literal.\<close>
  "showInt i = (if i < 0 then CHR ''-'' # showNat (nat (- i)) else showNat (nat i))"

definition distributed :: "transaction \<Rightarrow> string list \<Rightarrow> enriched" where
  \<comment> \<open>the value spread equally over the names of the report.\<close>
  "distributed t names =
     \<lparr>source_transaction = t, paymentOnly = False, fonteItens = ''report-distributed'',
      detailedItems =
        map (\<lambda>n. \<lparr>procedimento_id = None, nome = n,
                   valor = Value t / real (length names),
                   quantidade = 1, desconto = None, acrescimo = None\<rparr>) names,
      usedProposal = None\<rparr>"

fun invoiceDetailedItems ::
    "api \<Rightarrow> state \<Rightarrow> invoice_item list \<Rightarrow> state \<times> detailed_item list" where
  \<comment> \<open>the loop \<open>for (const item of items)\<close> that pushes onto \<open>detailedItems\<close>.\<close>
  "invoiceDetailedItems a s [] = (s, [])"
| "invoiceDetailedItems a s (item # items) =
     (let (s1, proc) = fetchProcedureWithCache a s (inv_procedimento_id item);
          fallbackName = ''Procedimento #'' @ showInt (inv_procedimento_id item);
          itemName =
            (case proc of
               None \<Rightarrow> fallbackName
             | Some p \<Rightarrow>
                 (case proc_nome p of
                    None \<Rightarrow> fallbackName
                  | Some n \<Rightarrow> if n \<noteq> [] then n else fallbackName));
          (s2, others) = invoiceDetailedItems a s1 items
      in (s2,
          \<lparr>procedimento_id = Some (inv_procedimento_id item),
           nome = itemName,
           valor = inv_valor item / 100,
           quantidade = quantityOr1 (inv_quantidade item),
           desconto = Some (numberOr0 (inv_desconto item) / 100),
           acrescimo = None\<rparr> # others))"

definition enrichFromReport :: "api \<Rightarrow> state \<Rightarrow> transaction \<Rightarrow> state \<times> enriched" where
  \<comment> \<open>the fallback after the proposal block: report-single, report-distributed or invoice.\<close>
  "enrichFromReport a s t =
     (let names = reportNames (NomeProcedimento t) in
      if length names \<le> 1 then
        (s, \<lparr>source_transaction = t, paymentOnly = False, fonteItens = ''report-single'',
             detailedItems =
               [\<lparr>procedimento_id = ProcedimentoID t,
                 nome = (case NomeProcedimento t of
                           None \<Rightarrow> ''Procedimento''
                         | Some n \<Rightarrow> if n \<noteq> [] then n else ''Procedimento''),
                 valor = Value t,
                 quantidade = quantityOr1 (Quantidade t),
                 desconto = None, acrescimo = None\<rparr>],
             usedProposal = None\<rparr>)
      else if \<not> truthyId (NumeroInvoice t) then (s, distributed t names)
      else
        (case NumeroInvoice t of
           None \<Rightarrow> (s, distributed t names)
         | Some invoiceId \<Rightarrow>
             (let items = invoiceItems a invoiceId (Data t) in
              if items = [] then (s, distributed t names)
              else
                (let (s1, detailed) = invoiceDetailedItems a s items
                 in (s1, \<lparr>source_transaction = t, paymentOnly = False,
                          fonteItens = ''invoice'', detailedItems = detailed,
                          usedProposal = None\<rparr>)))))"

definition enrichAfterCheck :: "api \<Rightarrow> state \<Rightarrow> transaction \<Rightarrow> state \<times> enriched" where
  \<comment> \<open>\<open>enrichTransactionWithItems\<close> after the payment-only block.\<close>
  "enrichAfterCheck a s t =
     (case tryProposal a s t of
        (s1, Some matchedProposal) \<Rightarrow>
          (s1, \<lparr>source_transaction = t, paymentOnly = False, fonteItens = ''proposal'',
                detailedItems = proposalItems matchedProposal,
                usedProposal = Some (proposal_id matchedProposal)\<rparr>)
      | (s1, None) \<Rightarrow> enrichFromReport a s1 t)"

definition enrichTransactionWithItems :: "api \<Rightarrow> state \<Rightarrow> transaction \<Rightarrow> state \<times> enriched" where
  "enrichTransactionWithItems a s t =
     (if isPaymentOnly a t then
        (s, \<lparr>source_transaction = t, paymentOnly = True, fonteItens = ''payment-only'',
             detailedItems = [], usedProposal = None\<rparr>)
      else enrichAfterCheck a s t)"

subsection \<open>The batch\<close>

fun enrichAll :: "api \<Rightarrow> state \<Rightarrow> transaction list \<Rightarrow> state \<times> enriched list" where
  \<comment> \<open>the sequential loop of \<open>fetchDetailedTransactions\<close>.\<close>
  "enrichAll a s [] = (s, [])"
| "enrichAll a s (mov # movs) =
     (let (s1, e) = enrichTransactionWithItems a s mov;
          (s2, es) = enrichAll a s1 movs
      in (s2, e # es))"

definition fetchDetailedTransactions ::
    "api \<Rightarrow> state \<Rightarrow> date \<Rightarrow> date \<Rightarrow> state \<times> (js_error + enriched list)" where
  "fetchDetailedTransactions a s startDate endDate =
     (case financialMovement a startDate endDate of
        None \<Rightarrow> (s, Inl Error)
      | Some transactions \<Rightarrow>
          (let (s1, es) = enrichAll a (s\<lparr>usedProposalIds := {}\<rparr>) transactions
           in (s1, Inr es)))"

definition clearAppointmentsCache :: "state \<Rightarrow> state" where
  "clearAppointmentsCache s = s\<lparr>appointmentsCache := Map.empty\<rparr>"

section \<open>The appointment validator (feegow.js) and the row builder (excel.js)\<close>

definition MAX_RETRIES :: nat where
  "MAX_RETRIES = 3"

definition isRetryable :: "int option \<Rightarrow> bool" where
  \<comment> \<open>\<open>!status || status === 409 || status >= 500\<close>\<close>
  "isRetryable st = (case st of None \<Rightarrow> True | Some n \<Rightarrow> n = 0 \<or> n = 409 \<or> n \<ge> 500)"

function searchAppointments ::
    "api \<Rightarrow> int option \<Rightarrow> date \<Rightarrow> nat \<Rightarrow> appointments_result" where
  \<comment> \<open>the retry loop of \<open>fetchPatientAppointments\<close> from \<open>attempt\<close> on. Every pass
      returns or continues, and it continues only while \<open>attempt < MAX_RETRIES\<close>, so the
      loop condition \<open>attempt <= MAX_RETRIES\<close> holds whenever it is tested.\<close>
  "searchAppointments a patientId d attempt =
     (case appointsSearch a attempt patientId d of
        Inr content \<Rightarrow> \<lparr>appointments = content, appts_apiError = False\<rparr>
      | Inl st \<Rightarrow>
          if isRetryable st \<and> attempt < MAX_RETRIES
          then searchAppointments a patientId d (attempt + 1)
          else \<lparr>appointments = [], appts_apiError = True\<rparr>)"
  by pat_completeness auto
termination
  by (relation "measure (\<lambda>(a, p, d, attempt). MAX_RETRIES - attempt)") auto

definition fetchPatientAppointments ::
    "api \<Rightarrow> state \<Rightarrow> int option \<Rightarrow> date \<Rightarrow> state \<times> appointments_result" where
  \<comment> \<open>the result, failure or not, is stored under the patient id alone.\<close>
  "fetchPatientAppointments a s patientId d =
     (case appointmentsCache s patientId of
        Some cached \<Rightarrow> (s, cached)
      | None \<Rightarrow>
          (let r = searchAppointments a patientId d 1
           in (s\<lparr>appointmentsCache := (appointmentsCache s)(patientId \<mapsto> r)\<rparr>, r)))"

record appointment_check =
  hasAppointmentToday :: bool
  isOnlineConsultation :: bool
  apiError :: bool

definition checkAppointmentDate ::
    "api \<Rightarrow> state \<Rightarrow> int option \<Rightarrow> date \<Rightarrow> state \<times> appointment_check" where
  \<comment> \<open>the processing date is brought to the text \<open>DD-MM-YYYY\<close> of \<open>apt.data\<close> before
      the comparison; on the three numbers that is equality.\<close>
  "checkAppointmentDate a s patientId processingDate =
     (let (s1, r) = fetchPatientAppointments a s patientId processingDate in
      if appts_apiError r then
        (s1, \<lparr>hasAppointmentToday = False, isOnlineConsultation = False, apiError = True\<rparr>)
      else
        (s1, \<lparr>hasAppointmentToday =
                 list_ex (\<lambda>apt. apt_data apt = processingDate) (appointments r),
               isOnlineConsultation =
                 list_ex (\<lambda>apt. telemedicina apt \<or>
                            (case notas apt of
                               None \<Rightarrow> False
                             | Some n \<Rightarrow> n \<noteq> [] \<and>
                                 includes_str (toLowerCase n) ''consulta online''))
                   (appointments r),
               apiError = False\<rparr>))"

record transaction_group =
  patientId :: "int option"
  patientName :: string
  group_date :: date
  transactions :: "transaction list"
  group_detailedItems :: "detailed_item list"

record classification_detail =
  tipo :: string
  procedimentoId :: "int option"
  detail_nome :: string
  detail_valor :: real
  detail_quantidade :: real
  detail_desconto :: real
  colunaDestino :: "string option"
  colunaDestinoNome :: string
  detail_classificadoPor :: string

text \<open>What the item loop of \<open>buildRow\<close> holds: the module state and its three locals.\<close>

record row_acc =
  acc_state :: state
  procedureValues :: "string \<Rightarrow> real option"
  classificationDetails :: "classification_detail list"
  discountTotal :: real

definition formatValue :: "real \<Rightarrow> real" where
  \<comment> \<open>\<open>typeof value === 'number' ? value : 0\<close>, on a number.\<close>
  "formatValue v = v"

definition COLUMN_NAMES :: "string \<Rightarrow> string option" where
  \<comment> \<open>\<open>Object.fromEntries\<close> of the swapped entries: the last entry of a letter wins.\<close>
  "COLUMN_NAMES = map_of (rev (map (\<lambda>(n, c). (c, n)) COLUMNS))"

definition itemDiscount :: "detailed_item \<Rightarrow> real" where
  \<comment> \<open>what the guard \<open>item.desconto && item.desconto > 0\<close> adds:
      \<open>item.desconto * (item.quantidade || 1)\<close>, or nothing.\<close>
  "itemDiscount item =
     (case desconto item of
        None \<Rightarrow> 0
      | Some d \<Rightarrow> if d > 0 then d * quantityOr1 (Some (quantidade item)) else 0)"

definition detailOf ::
    "detailed_item \<Rightarrow> string option \<Rightarrow> string \<Rightarrow> string \<Rightarrow> classification_detail" where
  \<comment> \<open>the object pushed onto \<open>classificationDetails\<close>.\<close>
  "detailOf item destino destinoNome por =
     \<lparr>tipo = ''procedimento'',
      procedimentoId = procedimento_id item,
      detail_nome = nome item,
      detail_valor = formatValue (valor item),
      detail_quantidade = quantityOr1 (Some (quantidade item)),
      detail_desconto = numberOr0 (desconto item),
      colunaDestino = destino,
      colunaDestinoNome = destinoNome,
      detail_classificadoPor = por\<rparr>"

definition addToColumn :: "row_acc \<Rightarrow> detailed_item \<Rightarrow> string \<Rightarrow> string \<Rightarrow> row_acc" where
  \<comment> \<open>the end of the loop body: the value goes to the column and the detail is pushed.\<close>
  "addToColumn acc item col por =
     acc\<lparr>procedureValues :=
           (procedureValues acc)(col \<mapsto> numberOr0 (procedureValues acc col)
                                          + formatValue (valor item)),
         classificationDetails :=
           classificationDetails acc @
             [detailOf item (Some col)
                (case COLUMN_NAMES col of None \<Rightarrow> col | Some n \<Rightarrow> if n \<noteq> [] then n else col)
                por]\<rparr>"

definition buildRowItem ::
    "api \<Rightarrow> group_mapping option \<Rightarrow> transaction_group \<Rightarrow> date \<Rightarrow> row_acc \<Rightarrow> detailed_item
       \<Rightarrow> js_error + row_acc" where
  \<comment> \<open>one pass of \<open>for (const item of group.detailedItems)\<close>.\<close>
  "buildRowItem a groupMapping g referenceDate acc0 item =
     (let acc = acc0\<lparr>discountTotal := discountTotal acc0 + itemDiscount item\<rparr>;
          c = classifyProcedure groupMapping (nome item) (procedimento_id item)
      in case column c of
           None \<Rightarrow>
             Inr (acc\<lparr>classificationDetails :=
                        classificationDetails acc @
                          [detailOf item None ''DESCARTADO'' (classificadoPor c)]\<rparr>)
         | Some col \<Rightarrow>
             if col = AVALIACAO then
               (case transactions g of
                  [] \<Rightarrow> Inl TypeError
                | first # _ \<Rightarrow>
                    (let (s1, chk) =
                           checkAppointmentDate a (acc_state acc) (PacienteID first) referenceDate;
                         acc1 = acc\<lparr>acc_state := s1\<rparr>
                     in if apiError chk then
                          Inr (addToColumn acc1 item col (classificadoPor c))
                        else if \<not> hasAppointmentToday chk then
                          Inr (acc1\<lparr>classificationDetails :=
                                      classificationDetails acc1 @
                                        [detailOf item None ''SINAL_ANTECIPADO''
                                           ''agendamento-futuro''],
                                    discountTotal := discountTotal acc1 - itemDiscount item\<rparr>)
                        else Inr (addToColumn acc1 item col (classificadoPor c))))
             else Inr (addToColumn acc item col (classificadoPor c)))"

fun buildRowItems ::
    "api \<Rightarrow> group_mapping option \<Rightarrow> transaction_group \<Rightarrow> date \<Rightarrow> row_acc \<Rightarrow> detailed_item list
       \<Rightarrow> js_error + row_acc" where
  "buildRowItems a groupMapping g referenceDate acc [] = Inr acc"
| "buildRowItems a groupMapping g referenceDate acc (item # items) =
     (case buildRowItem a groupMapping g referenceDate acc item of
        Inl e \<Rightarrow> Inl e
      | Inr acc1 \<Rightarrow> buildRowItems a groupMapping g referenceDate acc1 items)"

definition emptyRow :: "state \<Rightarrow> row_acc" where
  \<comment> \<open>the locals of \<open>buildRow\<close> before the loop: \<open>{}\<close>, \<open>[]\<close> and \<open>0\<close>.\<close>
  "emptyRow s =
     \<lparr>acc_state = s, procedureValues = Map.empty, classificationDetails = [],
      discountTotal = 0\<rparr>"

definition buildRow ::
    "api \<Rightarrow> group_mapping option \<Rightarrow> state \<Rightarrow> transaction_group \<Rightarrow> date \<Rightarrow> js_error + row_acc" where
  \<comment> \<open>the item loop of \<open>buildRow\<close> from its initial locals; the payment columns and the
      cells of the row are computed after it from \<open>procedureValues\<close> and \<open>discountTotal\<close>.\<close>
  "buildRow a groupMapping s g referenceDate =
     buildRowItems a groupMapping g referenceDate (emptyRow s) (group_detailedItems g)"


section \<open>Predicates used to state the properties\<close>

definition classificationColumns :: "string list" where
  \<comment> \<open>the column letters a classification can name.\<close>
  "classificationColumns =
     [AVALIACAO, DR_RIGATTI, IMPLANTE, SORO_DR, TIRZEPATIDA, APLICACOES, ONLINE, NUTRIS,
      EXTRA, ESTORNO_PROC, JUROS_CARTAO]"

definition mappedNames :: "string list" where
  \<comment> \<open>the column names \<open>fetchGroupMapping\<close> can store: those of \<open>GROUP_TO_COLUMN\<close> and
      of the overrides that are not \<open>null\<close>.\<close>
  "mappedNames =
     [''IMPLANTE'', ''APLICACOES'', ''SORO_DR'', ''EXTRA'', ''TIRZEPATIDA'', ''AVALIACAO'',
      ''ONLINE'', ''NUTRIS'', ''DR_RIGATTI'']"

definition wellMapped :: "group_mapping \<Rightarrow> bool" where
  \<comment> \<open>no entry holds \<open>null\<close>, every entry holds one of the names above, and no id whose
      override is \<open>null\<close> has an entry.\<close>
  "wellMapped m =
     (\<forall>i. m i \<noteq> Some None \<and>
          (\<forall>c. m i = Some (Some c) \<longrightarrow>
               c \<in> set mappedNames \<and> map_of OVERRIDES i \<noteq> Some None))"

section \<open>Concrete inputs: the scenarios of the specification\<close>

text \<open>Scenario B: two proposals with procedure 58, a transaction of value 305.\<close>

definition scenarioB_transaction :: transaction where
  "scenarioB_transaction =
     \<lparr>NumeroInvoice = None, NomeProcedimento = Some ''Tirzepatida 40Mg/1,6Ml'',
      Data = \<lparr>dia = 5, mes = 2, ano = 2026\<rparr>, PacienteID = Some 7,
      ProcedimentoID = Some 58, Value = 305, Quantidade = Some 1\<rparr>"

definition scenarioB_proposal :: "int \<Rightarrow> real \<Rightarrow> proposal" where
  "scenarioB_proposal n amount =
     \<lparr>proposal_id = n, status = ''Executada'', proposal_value = amount,
      proposal_procedimentos =
        [\<lparr>item_procedimento_id = 58, item_nome = ''Tirzepatida'', item_valor = amount,
          item_quantidade = Some 1, item_desconto = None, item_acrescimo = None\<rparr>]\<rparr>"

text \<open>A platform on which every lookup comes back empty and every search succeeds.\<close>

definition quiet_api :: api where
  "quiet_api =
     \<lparr>financialMovement = (\<lambda>startDate endDate. Some []),
      invoiceProposalDate = (\<lambda>invoiceId. None),
      proposalList = (\<lambda>pacienteId d. Some []),
      invoiceItems = (\<lambda>invoiceId d. []),
      procedureById = (\<lambda>procedureId. None),
      procedureGroups = None,
      appointsSearch = (\<lambda>attempt patient d. Inr []),
      utcOffsetMs = - 10800000\<rparr>"

definition initial_state :: state where
  "initial_state =
     \<lparr>proceduresCache = Map.empty, proposalsCache = Map.empty, groupsCache = None,
      usedProposalIds = {}, appointmentsCache = Map.empty\<rparr>"




text \<open>A batch of three transactions of patient 7 with procedure 58 and two proposals.\<close>

definition batch_api :: api where
  "batch_api =
     quiet_api\<lparr>financialMovement :=
                 (\<lambda>startDate endDate.
                    Some [scenarioB_transaction, scenarioB_transaction\<lparr>Value := 320\<rparr>,
                          scenarioB_transaction\<lparr>Value := 300\<rparr>]),
               proposalList :=
                 (\<lambda>pacienteId d.
                    if pacienteId = 7 then Some [scenarioB_proposal 1 320, scenarioB_proposal 2 300]
                    else Some [])\<rparr>"

definition scenario_date :: date where
  "scenario_date = \<lparr>dia = 5, mes = 2, ano = 2026\<rparr>"



text \<open>
  Scenario D: an evaluation item (procedure 16, the first consultation) of value 350 with
  a discount of 50, for patient 7; and a platform whose appointment search always fails
  with status 503.
\<close>

definition consultas_group :: procedure_group where
  "consultas_group = \<lparr>group_id = 3, procedimentos = Some [16, 17, 18, 19, 20, 22, 23, 24]\<rparr>"

definition scenarioD_item :: detailed_item where
  "scenarioD_item =
     \<lparr>procedimento_id = Some 16, nome = ''1a Consulta'', valor = 350, quantidade = 1,
      desconto = Some 50, acrescimo = Some 0\<rparr>"

definition scenarioD_group :: transaction_group where
  "scenarioD_group =
     \<lparr>patientId = Some 7, patientName = ''Ana'', group_date = scenario_date,
      transactions = [scenarioB_transaction], group_detailedItems = [scenarioD_item]\<rparr>"


text \<open>
  The inbound-inquiry procedure, id 20, whose override is \<open>null\<close>, as an item of a row.
\<close>

definition conversa_item :: detailed_item where
  "conversa_item =
     \<lparr>procedimento_id = Some 20, nome = ''Conversa/D'' @ [CHR 0xFA] @ ''vidas'', valor = 80,
      quantidade = 1, desconto = None, acrescimo = None\<rparr>"

definition conversa_group :: transaction_group where
  "conversa_group =
     \<lparr>patientId = Some 7, patientName = ''Ana'', group_date = scenario_date,
      transactions = [scenarioB_transaction], group_detailedItems = [conversa_item]\<rparr>"

text \<open>
  Two runs in one process: a platform on which patient 7 has an appointment on whatever
  day is asked about, a first run on 2026-02-05 and a second on 2026-02-25.
\<close>

definition later_date :: date where
  "later_date = \<lparr>dia = 25, mes = 2, ano = 2026\<rparr>"

definition visits_api :: api where
  "visits_api =
     quiet_api\<lparr>appointsSearch :=
       (\<lambda>attempt patient d.
          if patient = Some 7
          then Inr [\<lparr>apt_data = d, telemedicina = False, notas = None\<rparr>]
          else Inr [])\<rparr>"

definition after_first_run :: state where
  \<comment> \<open>the module state after the first run: the batch, then the row of the group.\<close>
  "after_first_run =
     (let s1 = fst (fetchDetailedTransactions visits_api initial_state scenario_date scenario_date)
      in case buildRow visits_api None s1 scenarioD_group scenario_date of
           Inl e \<Rightarrow> s1
         | Inr acc \<Rightarrow> acc_state acc)"

definition second_run_start :: state where
  \<comment> \<open>the module state of the second run once \<open>fetchDetailedTransactions\<close> has returned.\<close>
  "second_run_start =
     fst (fetchDetailedTransactions visits_api after_first_run later_date later_date)"

section \<open>Verified properties\<close>

subsection \<open>The splitter\<close>














lemmas split_eval = isSpaceChar_def isLetterChar_def isDigitChar_def ordinalChar_def
  commaChar_def letterAhead_def ordinalAhead_def separatorAhead_def trim_def reportNames_def



subsection \<open>The classifier\<close>

lemma includes_str_iff: "includes_str s p \<longleftrightarrow> (\<exists>a b. s = a @ p @ b)"
proof (induction s)
  case Nil
  show ?case by auto
next
  case (Cons c cs)
  show ?case
  proof
    assume "includes_str (c # cs) p"
    then consider "take (length p) (c # cs) = p" | "includes_str cs p" by auto
    then show "\<exists>a b. c # cs = a @ p @ b"
    proof cases
      case 1
      then have "c # cs = [] @ p @ drop (length p) (c # cs)"
        by (metis append_Nil append_take_drop_id)
      then show ?thesis by blast
    next
      case 2
      then obtain a b where "cs = a @ p @ b" using Cons by blast
      then have "c # cs = (c # a) @ p @ b" by simp
      then show ?thesis by blast
    qed
  next
    assume "\<exists>a b. c # cs = a @ p @ b"
    then obtain a b where ab: "c # cs = a @ p @ b" by blast
    show "includes_str (c # cs) p"
    proof (cases a)
      case Nil
      then have "take (length p) (c # cs) = p" using ab by simp
      then show ?thesis by simp
    next
      case (Cons x a')
      then have "cs = a' @ p @ b" using ab by simp
      then have "includes_str cs p" using Cons.IH by blast
      then show ?thesis by simp
    qed
  qed
qed

lemma scanPatterns_first:
  "i < length tbl \<Longrightarrow> includes_str nn (toLowerCase (fst (tbl ! i))) \<Longrightarrow>
   (\<forall>j<i. \<not> includes_str nn (toLowerCase (fst (tbl ! j)))) \<Longrightarrow>
   scanPatterns tbl nn = \<lparr>column = Some (snd (tbl ! i)), classificadoPor = ''nome''\<rparr>"
proof (induction tbl arbitrary: i)
  case Nil
  then show ?case by simp
next
  case (Cons e tbl)
  obtain p c where e: "e = (p, c)" by (cases e)
  show ?case
  proof (cases i)
    case 0
    then show ?thesis using Cons.prems e by simp
  next
    case (Suc k)
    have "\<not> includes_str nn (toLowerCase p)"
      using Cons.prems(3) Suc e by (metis fst_conv nth_Cons_0 zero_less_Suc)
    moreover have "scanPatterns tbl nn = \<lparr>column = Some (snd (tbl ! k)), classificadoPor = ''nome''\<rparr>"
    proof (rule Cons.IH)
      show "k < length tbl" using Cons.prems(1) Suc by simp
      show "includes_str nn (toLowerCase (fst (tbl ! k)))" using Cons.prems(2) Suc by simp
      show "\<forall>j<k. \<not> includes_str nn (toLowerCase (fst (tbl ! j)))"
        using Cons.prems(3) Suc by (metis Suc_less_eq nth_Cons_Suc)
    qed
    ultimately show ?thesis using e Suc by simp
  qed
qed

lemma scanPatterns_none:
  "(\<forall>j<length tbl. \<not> includes_str nn (toLowerCase (fst (tbl ! j)))) \<Longrightarrow>
   scanPatterns tbl nn = \<lparr>column = Some EXTRA, classificadoPor = ''fallback''\<rparr>"
proof (induction tbl)
  case Nil
  show ?case by simp
next
  case (Cons e tbl)
  obtain p c where e: "e = (p, c)" by (cases e)
  have "\<not> includes_str nn (toLowerCase p)"
    using Cons.prems e by (metis fst_conv length_greater_0_conv list.discI nth_Cons_0)
  moreover have "\<forall>j<length tbl. \<not> includes_str nn (toLowerCase (fst (tbl ! j)))"
    using Cons.prems by (metis Suc_less_eq length_Cons nth_Cons_Suc)
  ultimately show ?case using Cons.IH e by simp
qed

lemma scanPatterns_column: "column (scanPatterns tbl nn) \<noteq> None"
  by (induction tbl nn rule: scanPatterns.induct) auto

lemma scanPatterns_por:
  "classificadoPor (scanPatterns tbl nn) = ''nome'' \<or> classificadoPor (scanPatterns tbl nn) = ''fallback''"
  by (induction tbl nn rule: scanPatterns.induct) auto

lemma lower_nutricional: "toLowerCase ''nutricional'' = ''nutricional''"
  by (simp add: toLowerCase_def lowerChar_def)

lemma scan_nutricional:
  "includes_str nn ''nutricional'' \<Longrightarrow>
   scanPatterns PROCEDURE_MAPPING nn = \<lparr>column = Some NUTRIS, classificadoPor = ''nome''\<rparr>"
  unfolding PROCEDURE_MAPPING_def by (simp add: lower_nutricional)

lemma columnById_absent:
  "procedureId = None \<or> groupMapping = None \<or>
     (\<exists>m i. groupMapping = Some m \<and> procedureId = Some i \<and> (i = 0 \<or> m i = None))
   \<Longrightarrow> columnById groupMapping procedureId = None"
  by (auto simp: columnById_def split: option.splits)

text \<open>
  Claim C3. When the procedure id is absent (or falsy), or the group mapping is not loaded
  or has no entry for the id, \<open>classifyProcedure\<close> goes by the name: the column of the first
  entry of \<open>PROCEDURE_MAPPING\<close> whose pattern occurs in the lower-cased name is returned with
  \<open>classificadoPor = nome\<close>, whatever later entries match; a name that contains
  \<open>nutricional\<close> in any mix of cases is classified \<open>NUTRIS\<close>, also when it contains
  \<open>consulta\<close>; and a name in which no pattern occurs gets \<open>EXTRA\<close> with
  \<open>classificadoPor = fallback\<close>.
\<close>

theorem classifyProcedure_by_name_first_match:
  assumes "procedureId = None \<or> groupMapping = None \<or>
     (\<exists>m i. groupMapping = Some m \<and> procedureId = Some i \<and> (i = 0 \<or> m i = None))"
  shows "(i < length PROCEDURE_MAPPING \<and>
          includes_str (toLowerCase procedureName) (toLowerCase (fst (PROCEDURE_MAPPING ! i))) \<and>
          (\<forall>j<i. \<not> includes_str (toLowerCase procedureName)
                      (toLowerCase (fst (PROCEDURE_MAPPING ! j))))
          \<longrightarrow> classifyProcedure groupMapping procedureName procedureId
                = \<lparr>column = Some (snd (PROCEDURE_MAPPING ! i)), classificadoPor = ''nome''\<rparr>)
       \<and> (procedureName = a @ w @ b \<and> toLowerCase w = ''nutricional''
          \<longrightarrow> classifyProcedure groupMapping procedureName procedureId
                = \<lparr>column = Some NUTRIS, classificadoPor = ''nome''\<rparr>)
       \<and> ((\<forall>j<length PROCEDURE_MAPPING. \<not> includes_str (toLowerCase procedureName)
                      (toLowerCase (fst (PROCEDURE_MAPPING ! j))))
          \<longrightarrow> classifyProcedure groupMapping procedureName procedureId
                = \<lparr>column = Some EXTRA, classificadoPor = ''fallback''\<rparr>)"
proof -
  have c: "classifyProcedure groupMapping procedureName procedureId
           = scanPatterns PROCEDURE_MAPPING (toLowerCase procedureName)"
    using columnById_absent [OF assms] by (simp add: classifyProcedure_def)
  have n: "procedureName = a @ w @ b \<and> toLowerCase w = ''nutricional''
           \<longrightarrow> includes_str (toLowerCase procedureName) ''nutricional''"
  proof
    assume h: "procedureName = a @ w @ b \<and> toLowerCase w = ''nutricional''"
    then have "toLowerCase procedureName = toLowerCase a @ ''nutricional'' @ toLowerCase b"
      by (simp add: toLowerCase_def)
    then show "includes_str (toLowerCase procedureName) ''nutricional''"
      unfolding includes_str_iff by blast
  qed
  show ?thesis
    unfolding c using scanPatterns_first scanPatterns_none scan_nutricional n by blast
qed

lemmas cls_eval = classifyProcedure_def columnById_def toLowerCase_def lowerChar_def
  PROCEDURE_MAPPING_def NUTRIS_def AVALIACAO_def EXTRA_def DR_RIGATTI_def ONLINE_def

theorem classifyProcedure_by_name_witness:
  "classifyProcedure None ''Consulta Nutricional'' (Some 22)
     = \<lparr>column = Some NUTRIS, classificadoPor = ''nome''\<rparr>
   \<and> ''Consulta Nutricional'' = ''Consulta '' @ ''Nutricional'' @ []
   \<and> toLowerCase ''Nutricional'' = ''nutricional''
   \<and> includes_str (toLowerCase ''Consulta Nutricional'') ''consulta''
   \<and> classifyProcedure None ''Consulta Medica'' None
     = \<lparr>column = Some AVALIACAO, classificadoPor = ''nome''\<rparr>
   \<and> classifyProcedure None ''Exame de sangue'' None
     = \<lparr>column = Some EXTRA, classificadoPor = ''fallback''\<rparr>"
  using classifyProcedure_by_name_first_match
    [of "Some 22" None "0" "''Consulta Nutricional''" "''Consulta ''" "''Nutricional''" "[]"]
  by (simp add: cls_eval)

subsection \<open>The proposal matcher\<close>

lemma sort_key_head_least:
  assumes "sort_key f xs = b # rest"
  shows "b \<in> set xs \<and> (\<forall>q\<in>set xs. f b \<le> f q)"
proof -
  have s: "sorted (map f (b # rest))"
    using sorted_sort_key [of f xs] assms by simp
  have m: "set (b # rest) = set xs"
    using set_sort [of f xs] assms by simp
  have "\<forall>q\<in>set (b # rest). f b \<le> f q"
    using s by auto
  then show ?thesis using m by auto
qed

lemma single_procedure_match:
  assumes "length (reportNames (NomeProcedimento t)) \<le> 1"
    and "ProcedimentoID t = Some procId" and "procId \<noteq> 0"
  shows "findMatchingProposal a t proposals =
     (case filter (hasProcedure procId) proposals of
        [] \<Rightarrow> None
      | [c] \<Rightarrow> Some c
      | c # c' # cs \<Rightarrow>
          (case sort_key (valueDistance t) (c # c' # cs) of
             [] \<Rightarrow> None
           | best # _ \<Rightarrow> Some best))"
proof (cases "proposals = []")
  case True
  then show ?thesis by (simp add: findMatchingProposal_def)
next
  case False
  then show ?thesis using assms
    by (simp add: findMatchingProposal_def truthyId_def Let_def)
qed

text \<open>
  Claim C6. For a transaction whose name gives at most one token and whose procedure id is
  given (not \<open>null\<close> and not 0, as the code tests it), the candidates are the available
  proposals with a line item of that procedure id. With more than one candidate the matcher
  returns a candidate whose total is at the least absolute distance from the transaction's
  value; with exactly one it returns that one; with none it returns \<open>null\<close>. The witness
  is scenario B: totals 300 and 320 against the value 305 give the proposal of total 300, in
  either order of the list.
\<close>

theorem findMatchingProposal_single_closest:
  assumes "length (reportNames (NomeProcedimento t)) \<le> 1"
    and "ProcedimentoID t = Some procId" and "procId \<noteq> 0"
  shows "(length (filter (hasProcedure procId) proposals) > 1 \<longrightarrow>
           (\<exists>p \<in> set (filter (hasProcedure procId) proposals).
              findMatchingProposal a t proposals = Some p \<and>
              (\<forall>q \<in> set (filter (hasProcedure procId) proposals).
                 \<bar>proposal_value p - Value t\<bar> \<le> \<bar>proposal_value q - Value t\<bar>)))
       \<and> (filter (hasProcedure procId) proposals = [c] \<longrightarrow>
            findMatchingProposal a t proposals = Some c)
       \<and> (filter (hasProcedure procId) proposals = [] \<longrightarrow>
            findMatchingProposal a t proposals = None)"
proof -
  let ?cands = "filter (hasProcedure procId) proposals"
  note m = single_procedure_match [OF assms, of a proposals]
  have many: "length ?cands > 1 \<longrightarrow>
           (\<exists>p \<in> set ?cands. findMatchingProposal a t proposals = Some p \<and>
              (\<forall>q \<in> set ?cands. \<bar>proposal_value p - Value t\<bar> \<le> \<bar>proposal_value q - Value t\<bar>))"
  proof
    assume "length ?cands > 1"
    then obtain c c' cs where cs: "?cands = c # c' # cs"
      by (cases ?cands; cases "tl ?cands") auto
    have "sort_key (valueDistance t) ?cands \<noteq> []"
      using cs by (metis length_sort list.size(3) list.discI length_0_conv)
    then obtain best rest where b: "sort_key (valueDistance t) ?cands = best # rest"
      by (cases "sort_key (valueDistance t) ?cands") auto
    have r: "findMatchingProposal a t proposals = Some best"
      using m cs b by simp
    have "best \<in> set ?cands \<and> (\<forall>q\<in>set ?cands. valueDistance t best \<le> valueDistance t q)"
      using sort_key_head_least [OF b] .
    then show "\<exists>p \<in> set ?cands. findMatchingProposal a t proposals = Some p \<and>
              (\<forall>q \<in> set ?cands. \<bar>proposal_value p - Value t\<bar> \<le> \<bar>proposal_value q - Value t\<bar>)"
      using r unfolding valueDistance_def by blast
  qed
  have one: "?cands = [c] \<longrightarrow> findMatchingProposal a t proposals = Some c"
    using m by simp
  have zero: "?cands = [] \<longrightarrow> findMatchingProposal a t proposals = None"
    using m by simp
  show ?thesis using many one zero by blast
qed

theorem findMatchingProposal_single_witness:
  "length (reportNames (NomeProcedimento scenarioB_transaction)) \<le> 1
   \<and> ProcedimentoID scenarioB_transaction = Some 58
   \<and> length (filter (hasProcedure 58) [scenarioB_proposal 1 320, scenarioB_proposal 2 300]) = 2
   \<and> findMatchingProposal quiet_api scenarioB_transaction
        [scenarioB_proposal 1 320, scenarioB_proposal 2 300] = Some (scenarioB_proposal 2 300)
   \<and> findMatchingProposal quiet_api scenarioB_transaction
        [scenarioB_proposal 1 300, scenarioB_proposal 2 320] = Some (scenarioB_proposal 1 300)
   \<and> findMatchingProposal quiet_api (scenarioB_transaction\<lparr>ProcedimentoID := Some 104\<rparr>)
        [scenarioB_proposal 1 300, scenarioB_proposal 2 320] = None"
  using findMatchingProposal_single_closest
    [of scenarioB_transaction 58 "[scenarioB_proposal 1 320, scenarioB_proposal 2 300]" quiet_api]
  by (simp add: scenarioB_transaction_def scenarioB_proposal_def split_eval
      findMatchingProposal_def truthyId_def hasProcedure_def valueDistance_def)

lemma bestOverlap_spec:
  assumes "bestOverlap ids ps b n = (b', n')"
    and "case b of None \<Rightarrow> n = 0 | Some p \<Rightarrow> matchCount ids p = n \<and> p \<in> S"
  shows "n \<le> n' \<and> (\<forall>q\<in>set ps. matchCount ids q \<le> n') \<and>
         (case b' of None \<Rightarrow> n' = 0 | Some p \<Rightarrow> matchCount ids p = n' \<and> p \<in> S \<union> set ps)"
  using assms
proof (induction ps arbitrary: b n S)
  case Nil
  then show ?case by (auto split: option.splits)
next
  case (Cons p ps)
  show ?case
  proof (cases "matchCount ids p > n")
    case True
    then have r: "bestOverlap ids ps (Some p) (matchCount ids p) = (b', n')"
      using Cons.prems(1) by simp
    have "matchCount ids p \<le> n' \<and> (\<forall>q\<in>set ps. matchCount ids q \<le> n') \<and>
         (case b' of None \<Rightarrow> n' = 0 | Some p' \<Rightarrow> matchCount ids p' = n' \<and> p' \<in> (insert p S) \<union> set ps)"
    proof -
      have "case Some p of None \<Rightarrow> matchCount ids p = 0
            | Some p' \<Rightarrow> matchCount ids p' = matchCount ids p \<and> p' \<in> insert p S"
        by simp
      from Cons.IH [where S = "insert p S", OF r this] show ?thesis .
    qed
    then show ?thesis using True by (auto split: option.splits)
  next
    case False
    then have r: "bestOverlap ids ps b n = (b', n')"
      using Cons.prems(1) by simp
    from Cons.IH [OF r Cons.prems(2)] False show ?thesis
      by (auto split: option.splits)
  qed
qed

lemma bestOverlap_start:
  assumes "bestOverlap ids ps None 0 = (b', n')"
  shows "(\<forall>q\<in>set ps. matchCount ids q \<le> n') \<and>
         (case b' of None \<Rightarrow> n' = 0 | Some p \<Rightarrow> matchCount ids p = n' \<and> p \<in> set ps)"
  using bestOverlap_spec [where S = "{}" and b = None and n = 0, OF assms]
  by (auto split: option.splits)

lemma multi_procedure_match:
  assumes "length (reportNames (NomeProcedimento t)) > 1"
  shows "findMatchingProposal a t proposals =
     (if proposals = [] then None
      else case NumeroInvoice t of
             None \<Rightarrow> None
           | Some invoiceId \<Rightarrow>
               if invoiceId = 0 \<or> invoiceItems a invoiceId (Data t) = [] then None
               else (case bestOverlap (set (map inv_procedimento_id (invoiceItems a invoiceId (Data t))))
                            proposals None 0 of
                       (Some bestProposal, bestMatchCount) \<Rightarrow>
                         if bestMatchCount \<ge> 2 then Some bestProposal else None
                     | (None, _) \<Rightarrow> None))"
  using assms
  by (auto simp: findMatchingProposal_def truthyId_def Let_def split: option.splits)



subsection \<open>Proposal exclusivity within a batch\<close>

lemma fetchPatientProposals_used:
  "fetchPatientProposals a s pac d = (s1, ps) \<Longrightarrow> usedProposalIds s1 = usedProposalIds s"
  by (auto simp: fetchPatientProposals_def Let_def split: option.splits)

lemma fetchProcedureWithCache_used:
  "fetchProcedureWithCache a s i = (s1, p) \<Longrightarrow> usedProposalIds s1 = usedProposalIds s"
  by (auto simp: fetchProcedureWithCache_def split: option.splits)

lemma invoiceDetailedItems_used:
  "invoiceDetailedItems a s items = (s1, ds) \<Longrightarrow> usedProposalIds s1 = usedProposalIds s"
proof (induction items arbitrary: s s1 ds)
  case Nil
  then show ?case by simp
next
  case (Cons item items)
  obtain sa proc where f: "fetchProcedureWithCache a s (inv_procedimento_id item) = (sa, proc)"
    by (cases "fetchProcedureWithCache a s (inv_procedimento_id item)") auto
  obtain sb others where r: "invoiceDetailedItems a sa items = (sb, others)"
    by (cases "invoiceDetailedItems a sa items") auto
  have "s1 = sb" using Cons.prems f r by (simp add: Let_def)
  then show ?case
    using Cons.IH [OF r] fetchProcedureWithCache_used [OF f] by simp
qed

lemma findMatchingProposal_member:
  assumes "findMatchingProposal a t ps = Some p"
  shows "p \<in> set ps"
proof (cases "length (reportNames (NomeProcedimento t)) > 1")
  case True
  note m = multi_procedure_match [OF True, of a ps]
  from assms m obtain invoiceId where inv: "NumeroInvoice t = Some invoiceId"
    by (cases "NumeroInvoice t") (auto split: if_splits)
  let ?ids = "set (map inv_procedimento_id (invoiceItems a invoiceId (Data t)))"
  obtain b' n' where bo: "bestOverlap ?ids ps None 0 = (b', n')"
    by (cases "bestOverlap ?ids ps None 0") auto
  have "b' = Some p" using assms m inv bo by (auto split: if_splits option.splits)
  then show ?thesis using bestOverlap_start [OF bo] by auto
next
  case False
  then have le: "length (reportNames (NomeProcedimento t)) \<le> 1" by simp
  show ?thesis
  proof (cases "truthyId (ProcedimentoID t)")
    case True
    then obtain procId where pid: "ProcedimentoID t = Some procId" "procId \<noteq> 0"
      by (auto simp: truthyId_def split: option.splits)
    note m = single_procedure_match [OF le pid, of a ps]
    let ?cands = "filter (hasProcedure procId) ps"
    show ?thesis
    proof (cases ?cands)
      case Nil
      then show ?thesis using assms m by simp
    next
      case (Cons c cs)
      show ?thesis
      proof (cases cs)
        case Nil
        then have "p = c" using assms m Cons by simp
        then have "p \<in> set ?cands" using Cons by simp
        then show ?thesis by simp
      next
        case (Cons c' cs')
        obtain best rest where b: "sort_key (valueDistance t) ?cands = best # rest"
          using \<open>?cands = c # cs\<close>
          by (cases "sort_key (valueDistance t) ?cands")
             (auto dest: arg_cong [where f = length])
        have "p = best" using assms m \<open>?cands = c # cs\<close> Cons b by simp
        then have "p \<in> set ?cands" using sort_key_head_least [OF b] by simp
        then show ?thesis by simp
      qed
    qed
  next
    case False
    then show ?thesis using assms le
      by (auto simp: findMatchingProposal_def Let_def split: if_splits)
  qed
qed

lemma tryProposal_spec:
  assumes "tryProposal a s t = (s1, r)"
  shows "case r of
           None \<Rightarrow> usedProposalIds s1 = usedProposalIds s
         | Some p \<Rightarrow> proposal_id p \<notin> usedProposalIds s \<and>
                      usedProposalIds s1 = insert (proposal_id p) (usedProposalIds s)"
proof (cases "PacienteID t")
  case None
  then show ?thesis using assms by (auto simp: tryProposal_def)
next
  case (Some pac)
  show ?thesis
  proof (cases "pac = 0")
    case True
    then show ?thesis using assms Some by (auto simp: tryProposal_def)
  next
    case False
    obtain sa proposals where f: "fetchPatientProposals a s pac (Data t) = (sa, proposals)"
      by (cases "fetchPatientProposals a s pac (Data t)") auto
    note u = fetchPatientProposals_used [OF f]
    let ?avail = "filter (\<lambda>p. proposal_id p \<notin> usedProposalIds sa) proposals"
    show ?thesis
    proof (cases "findMatchingProposal a t ?avail")
      case None
      then show ?thesis using assms Some False f u
        by (auto simp: tryProposal_def Let_def split: if_splits)
    next
      case (Some mp)
      have mem: "mp \<in> set ?avail" using findMatchingProposal_member [OF Some] .
      then have nu: "proposal_id mp \<notin> usedProposalIds s" using u by simp
      have ne: "?avail \<noteq> []" using mem by (metis empty_iff empty_set)
      have tp: "tryProposal a s t =
          (if proposal_procedimentos mp \<noteq> [] then
             (sa\<lparr>usedProposalIds := insert (proposal_id mp) (usedProposalIds sa)\<rparr>, Some mp)
           else (sa, None))"
        using \<open>PacienteID t = Some pac\<close> False f ne Some
        by (simp add: tryProposal_def Let_def)
      show ?thesis
      proof (cases "proposal_procedimentos mp \<noteq> []")
        case True
        then have "s1 = sa\<lparr>usedProposalIds := insert (proposal_id mp) (usedProposalIds sa)\<rparr>"
          and "r = Some mp"
          using assms tp by auto
        then show ?thesis using nu u by simp
      next
        case False
        then have "s1 = sa" and "r = None" using assms tp by auto
        then show ?thesis using u by simp
      qed
    qed
  qed
qed

lemma enrichFromReport_spec:
  assumes "enrichFromReport a s t = (s1, e)"
  shows "usedProposal e = None \<and> fonteItens e \<noteq> ''proposal'' \<and> \<not> paymentOnly e \<and>
         fonteItens e \<noteq> ''payment-only'' \<and> usedProposalIds s1 = usedProposalIds s"
proof -
  have d: "usedProposal (distributed t ns) = None \<and> fonteItens (distributed t ns) = ''report-distributed''
           \<and> \<not> paymentOnly (distributed t ns)" for ns
    by (simp add: distributed_def)
  show ?thesis
  proof (cases "length (reportNames (NomeProcedimento t)) \<le> 1")
    case True
    then show ?thesis using assms by (auto simp: enrichFromReport_def Let_def)
  next
    case False
    show ?thesis
    proof (cases "NumeroInvoice t")
      case None
      then show ?thesis using assms False d by (auto simp: enrichFromReport_def Let_def truthyId_def)
    next
      case (Some invoiceId)
      obtain sa ds where i: "invoiceDetailedItems a s (invoiceItems a invoiceId (Data t)) = (sa, ds)"
        by (cases "invoiceDetailedItems a s (invoiceItems a invoiceId (Data t))") auto
      show ?thesis using assms False Some d i invoiceDetailedItems_used [OF i]
        by (auto simp: enrichFromReport_def Let_def truthyId_def split: if_splits)
    qed
  qed
qed

lemma enrichAfterCheck_spec:
  assumes "enrichAfterCheck a s t = (s1, e)"
  shows "\<not> paymentOnly e \<and> fonteItens e \<noteq> ''payment-only'' \<and>
         ((usedProposal e = None \<and> fonteItens e \<noteq> ''proposal'' \<and>
           usedProposalIds s1 = usedProposalIds s) \<or>
          (\<exists>i. usedProposal e = Some i \<and> fonteItens e = ''proposal'' \<and>
               i \<notin> usedProposalIds s \<and> usedProposalIds s1 = insert i (usedProposalIds s)))"
proof -
  obtain sa r where tp: "tryProposal a s t = (sa, r)"
    by (cases "tryProposal a s t") auto
  note sp = tryProposal_spec [OF tp]
  show ?thesis
  proof (cases r)
    case None
    then have "enrichFromReport a sa t = (s1, e)" using assms tp by (simp add: enrichAfterCheck_def)
    from enrichFromReport_spec [OF this] sp None show ?thesis by simp
  next
    case (Some mp)
    then show ?thesis using assms tp sp by (auto simp: enrichAfterCheck_def)
  qed
qed

lemma enrichTransactionWithItems_spec:
  assumes "enrichTransactionWithItems a s t = (s1, e)"
  shows "(usedProposal e = None \<and> fonteItens e \<noteq> ''proposal'' \<and>
           usedProposalIds s1 = usedProposalIds s) \<or>
          (\<exists>i. usedProposal e = Some i \<and> fonteItens e = ''proposal'' \<and>
               i \<notin> usedProposalIds s \<and> usedProposalIds s1 = insert i (usedProposalIds s))"
proof (cases "isPaymentOnly a t")
  case True
  then show ?thesis using assms by (auto simp: enrichTransactionWithItems_def)
next
  case False
  then have "enrichAfterCheck a s t = (s1, e)" using assms by (simp add: enrichTransactionWithItems_def)
  from enrichAfterCheck_spec [OF this] show ?thesis by simp
qed

lemma enrichAll_spec:
  assumes "enrichAll a s ts = (s1, es)"
  shows "usedProposalIds s1 = usedProposalIds s \<union> set (List.map_filter usedProposal es)
       \<and> set (List.map_filter usedProposal es) \<inter> usedProposalIds s = {}
       \<and> distinct (List.map_filter usedProposal es)
       \<and> (\<forall>e \<in> set es. (fonteItens e = ''proposal'') = (usedProposal e \<noteq> None))
       \<and> length es = length ts"
  using assms
proof (induction ts arbitrary: s s1 es)
  case Nil
  then show ?case by (simp add: List.map_filter_simps)
next
  case (Cons mov movs)
  obtain sa e where h: "enrichTransactionWithItems a s mov = (sa, e)"
    by (cases "enrichTransactionWithItems a s mov") auto
  obtain sb es' where r: "enrichAll a sa movs = (sb, es')"
    by (cases "enrichAll a sa movs") auto
  have eq: "s1 = sb" "es = e # es'" using Cons.prems h r by (auto simp: Let_def)
  note ih = Cons.IH [OF r]
  note hs = enrichTransactionWithItems_spec [OF h]
  show ?case
  proof (cases "usedProposal e")
    case None
    then show ?thesis using ih hs eq by (auto simp: List.map_filter_simps)
  next
    case (Some i)
    then show ?thesis using ih hs eq by (auto simp: List.map_filter_simps)
  qed
qed

lemma set_map_filter_Some:
  "x \<in> set xs \<Longrightarrow> f x = Some y \<Longrightarrow> y \<in> set (List.map_filter f xs)"
  by (induction xs) (auto split: option.splits)

lemma map_filter_nth_distinct:
  assumes "distinct (List.map_filter f xs)" "i < j" "j < length xs"
    and "f (xs ! i) = Some x" "f (xs ! j) = Some y"
  shows "x \<noteq> y"
  using assms
proof (induction xs arbitrary: i j)
  case Nil
  then show ?case by simp
next
  case (Cons z zs)
  obtain j' where j: "j = Suc j'" using Cons.prems(2) by (cases j) auto
  show ?case
  proof (cases i)
    case 0
    have "y \<in> set (List.map_filter f zs)"
      using Cons.prems(3,5) j set_map_filter_Some [of "zs ! j'" zs f y] by simp
    then show ?thesis using Cons.prems(1,4) 0 by (auto simp: List.map_filter_simps)
  next
    case (Suc i')
    have "distinct (List.map_filter f zs)"
      using Cons.prems(1) by (cases "f z") (auto simp: List.map_filter_simps)
    from Cons.IH [OF this, of i' j'] Cons.prems Suc j show ?thesis by simp
  qed
qed

text \<open>
  Claim C1. In every batch run that returns, no two enriched transactions consume the same
  proposal. \<open>usedProposal\<close> names the proposal an enrichment added to \<open>usedProposalIds\<close>;
  it is set exactly on the transactions of source \<open>proposal\<close>, the ids set in one batch
  are pairwise different, and at the end of the batch they are the content of
  \<open>usedProposalIds\<close>.
\<close>

theorem batch_never_reuses_a_proposal:
  assumes "fetchDetailedTransactions a s startDate endDate = (s1, Inr es)"
  shows "distinct (List.map_filter usedProposal es)
       \<and> (\<forall>e \<in> set es. (fonteItens e = ''proposal'') = (usedProposal e \<noteq> None))
       \<and> usedProposalIds s1 = set (List.map_filter usedProposal es)
       \<and> (\<forall>i j. i < j \<and> j < length es \<and> fonteItens (es ! i) = ''proposal'' \<and>
                 fonteItens (es ! j) = ''proposal''
              \<longrightarrow> usedProposal (es ! i) \<noteq> usedProposal (es ! j))"
proof -
  from assms obtain ts where
    ea: "enrichAll a (s\<lparr>usedProposalIds := {}\<rparr>) ts = (s1, es)"
    by (auto simp: fetchDetailedTransactions_def Let_def split: option.splits prod.splits)
  note sp = enrichAll_spec [OF ea]
  have d: "distinct (List.map_filter usedProposal es)" using sp by simp
  have src: "\<forall>e \<in> set es. (fonteItens e = ''proposal'') = (usedProposal e \<noteq> None)"
    using sp by simp
  have used: "usedProposalIds s1 = set (List.map_filter usedProposal es)" using sp by simp
  have pair: "\<forall>i j. i < j \<and> j < length es \<and> fonteItens (es ! i) = ''proposal'' \<and>
                 fonteItens (es ! j) = ''proposal''
              \<longrightarrow> usedProposal (es ! i) \<noteq> usedProposal (es ! j)"
  proof (intro allI impI)
    fix i j
    assume h: "i < j \<and> j < length es \<and> fonteItens (es ! i) = ''proposal'' \<and>
                 fonteItens (es ! j) = ''proposal''"
    then have "es ! i \<in> set es" "es ! j \<in> set es" by auto
    then obtain x y where xy: "usedProposal (es ! i) = Some x" "usedProposal (es ! j) = Some y"
      using src h by auto
    have "x \<noteq> y"
      using map_filter_nth_distinct [OF d _ _ xy] h by simp
    then show "usedProposal (es ! i) \<noteq> usedProposal (es ! j)" using xy by simp
  qed
  show ?thesis using d src used pair by blast
qed

lemma batch_eval:
  "case snd (fetchDetailedTransactions batch_api initial_state scenario_date scenario_date) of
     Inl x \<Rightarrow> False
   | Inr es \<Rightarrow> map usedProposal es = [Some 2, Some 1, None]
       \<and> map fonteItens es = [''proposal'', ''proposal'', ''report-single'']"
  by code_simp

theorem batch_never_reuses_a_proposal_witness:
  "\<exists>s1 es. fetchDetailedTransactions batch_api initial_state scenario_date scenario_date
               = (s1, Inr es)
     \<and> map usedProposal es = [Some 2, Some 1, None]
     \<and> map fonteItens es = [''proposal'', ''proposal'', ''report-single'']
     \<and> usedProposalIds s1 = {1, 2}
     \<and> distinct (List.map_filter usedProposal es)"
proof -
  define r where
    "r = fetchDetailedTransactions batch_api initial_state scenario_date scenario_date"
  have ev: "case snd r of
     Inl x \<Rightarrow> False
   | Inr es \<Rightarrow> map usedProposal es = [Some 2, Some 1, None]
       \<and> map fonteItens es = [''proposal'', ''proposal'', ''report-single'']"
    unfolding r_def by (rule batch_eval)
  obtain es where es: "snd r = Inr es"
    and m1: "map usedProposal es = [Some 2, Some 1, None]"
    and m2: "map fonteItens es = [''proposal'', ''proposal'', ''report-single'']"
  proof (cases "snd r")
    case (Inl x)
    then show ?thesis using ev by simp
  next
    case (Inr es)
    then show ?thesis using ev that by simp
  qed
  have eq: "fetchDetailedTransactions batch_api initial_state scenario_date scenario_date
            = (fst r, Inr es)"
    unfolding r_def [symmetric] using es by (cases r) simp
  note t = batch_never_reuses_a_proposal [OF eq]
  obtain e1 e2 e3 where l: "es = [e1, e2, e3]"
    and u: "usedProposal e1 = Some 2" "usedProposal e2 = Some 1" "usedProposal e3 = None"
    using m1 by (auto simp: map_eq_Cons_conv)
  have mf: "List.map_filter usedProposal es = [2, 1]"
    by (simp add: l u)
  have used: "usedProposalIds (fst r) = {1, 2}"
    using t mf by auto
  have d: "distinct (List.map_filter usedProposal es)"
    by (simp add: mf)
  show ?thesis
  proof (intro exI conjI)
    show "fetchDetailedTransactions batch_api initial_state scenario_date scenario_date
            = (fst r, Inr es)" by (rule eq)
    show "map usedProposal es = [Some 2, Some 1, None]" by (rule m1)
    show "map fonteItens es = [''proposal'', ''proposal'', ''report-single'']" by (rule m2)
    show "usedProposalIds (fst r) = {1, 2}" by (rule used)
    show "distinct (List.map_filter usedProposal es)" by (rule d)
  qed
qed

subsection \<open>The payment-only check\<close>









subsection \<open>Evaluation items and the appointment check\<close>





subsection \<open>The classifier never discards\<close>

lemmas column_letters = AVALIACAO_def DR_RIGATTI_def IMPLANTE_def SORO_DR_def TIRZEPATIDA_def
  APLICACOES_def ONLINE_def NUTRIS_def EXTRA_def ESTORNO_PROC_def JUROS_CARTAO_def

lemma scanPatterns_in:
  "(\<forall>e \<in> set tbl. snd e \<in> L) \<Longrightarrow> EXTRA \<in> L \<Longrightarrow>
   \<exists>l \<in> L. column (scanPatterns tbl nn) = Some l"
  by (induction tbl nn rule: scanPatterns.induct) auto

lemma PROCEDURE_MAPPING_columns:
  "\<forall>e \<in> set PROCEDURE_MAPPING. snd e \<in> set classificationColumns"
  by (simp add: PROCEDURE_MAPPING_def classificationColumns_def)

lemma EXTRA_column: "EXTRA \<in> set classificationColumns"
  by (simp add: classificationColumns_def)

lemma OVERRIDES_names:
  "map_of OVERRIDES p = Some (Some c) \<Longrightarrow> c \<in> set mappedNames"
  by (auto simp: OVERRIDES_def mappedNames_def split: if_splits)

lemma GROUP_TO_COLUMN_names:
  "GROUP_TO_COLUMN g = Some c \<Longrightarrow> c \<in> set mappedNames"
  by (auto simp: GROUP_TO_COLUMN_def mappedNames_def split: if_splits)

lemma wellMapped_update:
  assumes "wellMapped m" "c \<in> set mappedNames" "map_of OVERRIDES p \<noteq> Some None"
  shows "wellMapped (m(p \<mapsto> Some c))"
  unfolding wellMapped_def
proof (intro allI conjI impI)
  fix i
  show "(m(p \<mapsto> Some c)) i \<noteq> Some None"
    using assms(1) unfolding wellMapped_def by (cases "i = p") simp_all
next
  fix i c'
  assume h: "(m(p \<mapsto> Some c)) i = Some (Some c')"
  show "c' \<in> set mappedNames"
  proof (cases "i = p")
    case True
    then show ?thesis using h assms(2) by simp
  next
    case False
    then have "m i = Some (Some c')" using h by simp
    then show ?thesis using assms(1) unfolding wellMapped_def by blast
  qed
  show "map_of OVERRIDES i \<noteq> Some None"
  proof (cases "i = p")
    case True
    then show ?thesis using assms(3) by simp
  next
    case False
    then have "m i = Some (Some c')" using h by simp
    then show ?thesis using assms(1) unfolding wellMapped_def by blast
  qed
qed

lemma setColumn_wellMapped:
  assumes "wellMapped m" "case gc of None \<Rightarrow> True | Some c \<Rightarrow> c \<in> set mappedNames"
  shows "wellMapped (setColumn gc p m)"
proof (cases "map_of OVERRIDES p")
  case None
  note ov = None
  show ?thesis
  proof (cases gc)
    case None
    then show ?thesis using assms(1) ov by (simp add: setColumn_def)
  next
    case (Some g)
    then have g: "g \<in> set mappedNames" using assms(2) by simp
    have "wellMapped (m(p \<mapsto> Some g))"
      using wellMapped_update [OF assms(1) g] ov by simp
    then show ?thesis using assms(1) ov Some by (simp add: setColumn_def)
  qed
next
  case (Some col)
  note ov = Some
  show ?thesis
  proof (cases col)
    case None
    then show ?thesis using assms(1) ov by (simp add: setColumn_def)
  next
    case (Some c)
    then have c: "c \<in> set mappedNames" using ov OVERRIDES_names by simp
    have "wellMapped (m(p \<mapsto> Some c))"
      using wellMapped_update [OF assms(1) c] ov Some by simp
    then show ?thesis using assms(1) ov Some by (simp add: setColumn_def)
  qed
qed

lemma setColumns_wellMapped:
  assumes "case gc of None \<Rightarrow> True | Some c \<Rightarrow> c \<in> set mappedNames"
  shows "wellMapped m \<Longrightarrow> wellMapped (setColumns gc ps m)"
proof (induction ps arbitrary: m)
  case Nil
  then show ?case by simp
next
  case (Cons p ps)
  have "wellMapped (setColumn gc p m)"
    using setColumn_wellMapped [OF Cons.prems assms] .
  from Cons.IH [OF this] show ?case by simp
qed

lemma addGroups_wellMapped:
  "wellMapped m \<Longrightarrow> wellMapped (addGroups gs m)"
proof (induction gs arbitrary: m)
  case Nil
  then show ?case by simp
next
  case (Cons g gs)
  have gc: "case GROUP_TO_COLUMN (group_id g) of None \<Rightarrow> True | Some c \<Rightarrow> c \<in> set mappedNames"
    using GROUP_TO_COLUMN_names by (auto split: option.splits)
  show ?case
  proof (cases "procedimentos g")
    case None
    then show ?thesis using Cons.prems by simp
  next
    case (Some ps)
    then show ?thesis
      using Cons.IH [OF setColumns_wellMapped [OF gc Cons.prems]] by simp
  qed
qed

lemma loadGroups_wellMapped: "wellMapped (loadGroups response)"
proof -
  have e: "wellMapped Map.empty" by (simp add: wellMapped_def)
  show ?thesis
  proof (cases response)
    case None
    then show ?thesis using e by (simp add: loadGroups_def)
  next
    case (Some groups)
    then show ?thesis using addGroups_wellMapped [OF e] by (simp add: loadGroups_def)
  qed
qed

lemma mappedNames_checked:
  "list_all (\<lambda>c. case map_of COLUMNS c of
                     None \<Rightarrow> False
                   | Some l \<Rightarrow> l \<in> set classificationColumns) mappedNames"
  by code_simp

lemma mappedNames_letters:
  assumes "c \<in> set mappedNames"
  shows "\<exists>l \<in> set classificationColumns. map_of COLUMNS c = Some l"
proof -
  have "case map_of COLUMNS c of None \<Rightarrow> False | Some l \<Rightarrow> l \<in> set classificationColumns"
    using mappedNames_checked assms unfolding list_all_iff by blast
  then show ?thesis by (cases "map_of COLUMNS c") simp_all
qed

lemma classifyProcedure_letter:
  assumes "groupMapping = None \<or> (\<exists>m. groupMapping = Some m \<and> wellMapped m)"
  shows "\<exists>l \<in> set classificationColumns.
           column (classifyProcedure groupMapping procedureName procedureId) = Some l"
proof (cases "columnById groupMapping procedureId")
  case None
  then show ?thesis
    using scanPatterns_in [OF PROCEDURE_MAPPING_columns EXTRA_column]
    by (simp add: classifyProcedure_def)
next
  case (Some byId)
  then obtain m i where m: "groupMapping = Some m" "m i = Some byId"
    by (auto simp: columnById_def split: option.splits if_splits)
  then have "wellMapped m" using assms by auto
  then have w: "m i \<noteq> Some None"
    "\<And>c. m i = Some (Some c) \<Longrightarrow> c \<in> set mappedNames"
    unfolding wellMapped_def by blast+
  obtain c where c: "byId = Some c" "c \<in> set mappedNames"
    using w m(2) by (cases byId) auto
  show ?thesis using Some c(1) mappedNames_letters [OF c(2)]
    by (auto simp: classifyProcedure_def)
qed

lemma COLUMN_NAMES_checked:
  "list_all (\<lambda>l. (case COLUMN_NAMES l of None \<Rightarrow> l | Some n \<Rightarrow> if n \<noteq> [] then n else l)
                   \<noteq> ''DESCARTADO'') classificationColumns"
  by code_simp

lemma COLUMN_NAMES_letters:
  "l \<in> set classificationColumns \<Longrightarrow>
   (case COLUMN_NAMES l of None \<Rightarrow> l | Some n \<Rightarrow> if n \<noteq> [] then n else l) \<noteq> ''DESCARTADO''"
  using COLUMN_NAMES_checked unfolding list_all_iff by blast

lemma addToColumn_no_discard:
  assumes "l \<in> set classificationColumns"
    and "\<forall>d \<in> set (classificationDetails acc). colunaDestinoNome d \<noteq> ''DESCARTADO''"
  shows "\<forall>d \<in> set (classificationDetails (addToColumn acc item l por)).
           colunaDestinoNome d \<noteq> ''DESCARTADO''"
proof -
  have "colunaDestinoNome
          (detailOf item (Some l)
             (case COLUMN_NAMES l of None \<Rightarrow> l | Some n \<Rightarrow> if n \<noteq> [] then n else l) por)
        \<noteq> ''DESCARTADO''"
    using COLUMN_NAMES_letters [OF assms(1)] by (simp add: detailOf_def)
  then show ?thesis using assms(2) by (simp add: addToColumn_def)
qed

lemma buildRowItem_no_discard:
  assumes "groupMapping = None \<or> (\<exists>m. groupMapping = Some m \<and> wellMapped m)"
    and "buildRowItem a groupMapping g referenceDate acc item = Inr acc1"
    and "\<forall>d \<in> set (classificationDetails acc). colunaDestinoNome d \<noteq> ''DESCARTADO''"
  shows "\<forall>d \<in> set (classificationDetails acc1). colunaDestinoNome d \<noteq> ''DESCARTADO''"
proof -
  define c where "c = classifyProcedure groupMapping (nome item) (procedimento_id item)"
  define accD where "accD = acc\<lparr>discountTotal := discountTotal acc + itemDiscount item\<rparr>"
  obtain l where l: "l \<in> set classificationColumns" "column c = Some l"
    using classifyProcedure_letter [OF assms(1)] unfolding c_def by blast
  have kD: "\<forall>d \<in> set (classificationDetails accD). colunaDestinoNome d \<noteq> ''DESCARTADO''"
    using assms(3) by (simp add: accD_def)
  show ?thesis
  proof (cases "l = AVALIACAO")
    case False
    have "buildRowItem a groupMapping g referenceDate acc item
            = Inr (addToColumn accD item l (classificadoPor c))"
      using l(2) False by (simp add: buildRowItem_def Let_def c_def [symmetric] accD_def)
    then have "acc1 = addToColumn accD item l (classificadoPor c)" using assms(2) by simp
    then show ?thesis using addToColumn_no_discard [OF l(1) kD] by simp
  next
    case True
    show ?thesis
    proof (cases "transactions g")
      case Nil
      then have "buildRowItem a groupMapping g referenceDate acc item = Inl TypeError"
        using l(2) True by (simp add: buildRowItem_def Let_def c_def [symmetric])
      then show ?thesis using assms(2) by simp
    next
      case (Cons first others)
      obtain s1 chk where
        ck: "checkAppointmentDate a (acc_state accD) (PacienteID first) referenceDate = (s1, chk)"
        by (cases "checkAppointmentDate a (acc_state accD) (PacienteID first) referenceDate") auto
      define accS where "accS = accD\<lparr>acc_state := s1\<rparr>"
      have kS: "\<forall>d \<in> set (classificationDetails accS). colunaDestinoNome d \<noteq> ''DESCARTADO''"
        using kD by (simp add: accS_def)
      have r: "buildRowItem a groupMapping g referenceDate acc item =
                 (if apiError chk then Inr (addToColumn accS item l (classificadoPor c))
                  else if \<not> hasAppointmentToday chk then
                    Inr (accS\<lparr>classificationDetails :=
                                 classificationDetails accS @
                                   [detailOf item None ''SINAL_ANTECIPADO'' ''agendamento-futuro''],
                               discountTotal := discountTotal accS - itemDiscount item\<rparr>)
                  else Inr (addToColumn accS item l (classificadoPor c)))"
        using l(2) True Cons ck
        by (simp add: buildRowItem_def Let_def c_def [symmetric] accD_def [symmetric]
            accS_def [symmetric])
      show ?thesis
      proof (cases "\<not> apiError chk \<and> \<not> hasAppointmentToday chk")
        case True
        then have "acc1 = accS\<lparr>classificationDetails :=
                                 classificationDetails accS @
                                   [detailOf item None ''SINAL_ANTECIPADO'' ''agendamento-futuro''],
                               discountTotal := discountTotal accS - itemDiscount item\<rparr>"
          using r assms(2) by simp
        then show ?thesis using kS by (simp add: detailOf_def)
      next
        case False
        then have "acc1 = addToColumn accS item l (classificadoPor c)"
          using r assms(2) by (auto split: if_splits)
        then show ?thesis using addToColumn_no_discard [OF l(1) kS] by simp
      qed
    qed
  qed
qed

lemma buildRowItems_no_discard:
  assumes "groupMapping = None \<or> (\<exists>m. groupMapping = Some m \<and> wellMapped m)"
  shows "buildRowItems a groupMapping g referenceDate acc items = Inr acc1 \<Longrightarrow>
         \<forall>d \<in> set (classificationDetails acc). colunaDestinoNome d \<noteq> ''DESCARTADO'' \<Longrightarrow>
         \<forall>d \<in> set (classificationDetails acc1). colunaDestinoNome d \<noteq> ''DESCARTADO''"
proof (induction items arbitrary: acc)
  case Nil
  then show ?case by simp
next
  case (Cons item items)
  from Cons.prems(1) obtain acc' where
    st: "buildRowItem a groupMapping g referenceDate acc item = Inr acc'"
    and rest: "buildRowItems a groupMapping g referenceDate acc' items = Inr acc1"
    by (auto split: sum.splits)
  from Cons.IH [OF rest buildRowItem_no_discard [OF assms st Cons.prems(2)]]
  show ?case .
qed

lemma loadGroups_entry:
  "loadGroups response i \<noteq> Some None \<and>
   (map_of OVERRIDES i = Some None \<longrightarrow> loadGroups response i = None)"
proof -
  have w: "wellMapped (loadGroups response)" by (rule loadGroups_wellMapped)
  then have a: "loadGroups response i \<noteq> Some None" unfolding wellMapped_def by blast
  have b: "\<And>c. loadGroups response i = Some (Some c) \<Longrightarrow> map_of OVERRIDES i \<noteq> Some None"
    using w unfolding wellMapped_def by blast
  have "map_of OVERRIDES i = Some None \<longrightarrow> loadGroups response i = None"
  proof (cases "loadGroups response i")
    case None
    then show ?thesis by simp
  next
    case (Some e)
    show ?thesis
    proof (cases e)
      case None
      then show ?thesis using a Some by simp
    next
      case (Some c)
      then show ?thesis using b [of c] \<open>loadGroups response i = Some e\<close> by simp
    qed
  qed
  then show ?thesis using a by simp
qed

lemma fetchGroupMapping_loads:
  "(groupsCache s = None \<longrightarrow>
      fetchGroupMapping a s
        = (s\<lparr>groupsCache := Some (loadGroups (procedureGroups a))\<rparr>,
           loadGroups (procedureGroups a)))
   \<and> (groupsCache s = Some m \<longrightarrow> fetchGroupMapping a s = (s, m))"
  by (simp add: fetchGroupMapping_def Let_def)

lemma buildRow_no_discard:
  assumes "groupMapping = None \<or> groupMapping = Some (loadGroups response)"
    and "buildRow a groupMapping s g referenceDate = Inr acc"
  shows "\<forall>d \<in> set (classificationDetails acc). colunaDestinoNome d \<noteq> ''DESCARTADO''"
proof -
  have gm: "groupMapping = None \<or> (\<exists>m. groupMapping = Some m \<and> wellMapped m)"
    using assms(1) loadGroups_wellMapped by auto
  have e: "\<forall>d \<in> set (classificationDetails (emptyRow s)). colunaDestinoNome d \<noteq> ''DESCARTADO''"
    by (simp add: emptyRow_def)
  show ?thesis
    using buildRowItems_no_discard [OF gm _ e] assms(2) unfolding buildRow_def by blast
qed

text \<open>
  Claim C10. The classifier returns a column for every name and id: with the group mapping
  not loaded, or loaded by \<open>fetchGroupMapping\<close> from any answer of the platform (its first
  call returns \<open>loadGroups\<close> of the answer), the column is one of the letters of
  \<open>classificationColumns\<close>, never \<open>null\<close>. The loaded mapping has
  no entry holding \<open>null\<close>, and an id whose override is \<open>null\<close> has no entry at all; every
  pattern of \<open>PROCEDURE_MAPPING\<close> names one of those letters. So no run of the item loop of
  \<open>buildRow\<close> pushes a detail named \<open>DESCARTADO\<close>: the branch for a \<open>null\<close> column is
  never taken.
\<close>

theorem classifier_never_discards:
  "(\<exists>l \<in> set classificationColumns.
       column (classifyProcedure None procedureName procedureId) = Some l)
   \<and> (\<exists>l \<in> set classificationColumns.
       column (classifyProcedure (Some (loadGroups response)) procedureName procedureId) = Some l)
   \<and> (groupsCache s = None \<longrightarrow>
        snd (fetchGroupMapping a s) = loadGroups (procedureGroups a))
   \<and> loadGroups response i \<noteq> Some None
   \<and> (map_of OVERRIDES i = Some None \<longrightarrow> loadGroups response i = None)
   \<and> (\<forall>e \<in> set PROCEDURE_MAPPING. snd e \<in> set classificationColumns)
   \<and> ((groupMapping = None \<or> groupMapping = Some (loadGroups response)) \<and>
       buildRow a groupMapping s g referenceDate = Inr acc
       \<longrightarrow> (\<forall>d \<in> set (classificationDetails acc). colunaDestinoNome d \<noteq> ''DESCARTADO''))"
proof -
  have n: "\<exists>l \<in> set classificationColumns.
       column (classifyProcedure None procedureName procedureId) = Some l"
    by (rule classifyProcedure_letter) simp
  have m: "\<exists>l \<in> set classificationColumns.
       column (classifyProcedure (Some (loadGroups response)) procedureName procedureId) = Some l"
    by (rule classifyProcedure_letter) (simp add: loadGroups_wellMapped)
  have b: "(groupMapping = None \<or> groupMapping = Some (loadGroups response)) \<and>
       buildRow a groupMapping s g referenceDate = Inr acc
       \<longrightarrow> (\<forall>d \<in> set (classificationDetails acc). colunaDestinoNome d \<noteq> ''DESCARTADO'')"
    using buildRow_no_discard by blast
  have f: "groupsCache s = None \<longrightarrow>
        snd (fetchGroupMapping a s) = loadGroups (procedureGroups a)"
    using fetchGroupMapping_loads [of s a] by simp
  show ?thesis
    using n m f b loadGroups_entry [of response i] PROCEDURE_MAPPING_columns by blast
qed

lemma conversa_eval:
  "map_of OVERRIDES 20 = Some None
   \<and> loadGroups (Some [consultas_group]) 20 = None
   \<and> loadGroups (Some [consultas_group]) 16 = Some (Some ''AVALIACAO'')
   \<and> column (classifyProcedure (Some (loadGroups (Some [consultas_group])))
               (nome conversa_item) (procedimento_id conversa_item)) = Some EXTRA
   \<and> classificadoPor (classifyProcedure (Some (loadGroups (Some [consultas_group])))
               (nome conversa_item) (procedimento_id conversa_item)) = ''fallback''
   \<and> (case buildRow quiet_api (Some (loadGroups (Some [consultas_group]))) initial_state
              conversa_group scenario_date of
         Inl e \<Rightarrow> False
       | Inr acc \<Rightarrow> map colunaDestinoNome (classificationDetails acc) = [''EXTRA'']
                    \<and> map colunaDestino (classificationDetails acc) = [Some EXTRA]
                    \<and> procedureValues acc EXTRA = Some 80)"
  by code_simp

theorem classifier_never_discards_witness:
  "map_of OVERRIDES 20 = Some None
   \<and> loadGroups (Some [consultas_group]) 20 = None
   \<and> column (classifyProcedure (Some (loadGroups (Some [consultas_group])))
               (nome conversa_item) (procedimento_id conversa_item)) = Some EXTRA
   \<and> (\<exists>acc. buildRow quiet_api (Some (loadGroups (Some [consultas_group]))) initial_state
              conversa_group scenario_date = Inr acc
          \<and> map colunaDestinoNome (classificationDetails acc) = [''EXTRA''])"
proof -
  let ?gm = "Some (loadGroups (Some [consultas_group]))"
  obtain acc where acc: "buildRow quiet_api ?gm initial_state conversa_group scenario_date = Inr acc"
    and nm: "map colunaDestinoNome (classificationDetails acc) = [''EXTRA'']"
    using conversa_eval
    by (cases "buildRow quiet_api ?gm initial_state conversa_group scenario_date") auto
  note t = classifier_never_discards
    [where response = "Some [consultas_group]" and i = 20 and groupMapping = ?gm
       and a = quiet_api and s = initial_state and g = conversa_group
       and referenceDate = scenario_date and acc = acc]
  have "loadGroups (Some [consultas_group]) 20 = None"
    using t conversa_eval by blast
  then show ?thesis
    using conversa_eval acc nm by (intro conjI exI [of _ acc]) simp_all
qed

subsection \<open>The discard override\<close>

lemma classifyProcedure_by_id:
  assumes "i \<noteq> 0" "m i = Some byId"
  shows "classifyProcedure (Some m) procedureName (Some i) =
           \<lparr>column = (case byId of
                         None \<Rightarrow> None
                       | Some c \<Rightarrow> (case map_of COLUMNS c of Some l \<Rightarrow> Some l | None \<Rightarrow> Some c)),
            classificadoPor = ''id''\<rparr>"
  using assms by (simp add: classifyProcedure_def columnById_def)

text \<open>
  Claim C2 on the code. An id with an entry in the group mapping is classified by that
  entry (\<open>classifyProcedure_by_id\<close>), a \<open>null\<close> entry included. But the mapping never holds
  the entry of the discard override: for procedure 20, whose override is \<open>null\<close>, the
  loaded mapping has no entry, and the item is classified by its name, here to \<open>EXTRA\<close> by
  the fallback, and with a name that contains \<open>consulta\<close> to the evaluation column.
\<close>

theorem discard_override_is_classified_by_name:
  "map_of OVERRIDES 20 = Some None
   \<and> loadGroups (Some [consultas_group]) 20 = None
   \<and> column (classifyProcedure (Some (loadGroups (Some [consultas_group])))
               (nome conversa_item) (Some 20)) = Some EXTRA
   \<and> classificadoPor (classifyProcedure (Some (loadGroups (Some [consultas_group])))
               (nome conversa_item) (Some 20)) = ''fallback''
   \<and> column (classifyProcedure (Some (loadGroups (Some [consultas_group])))
               ''Consulta por chat'' (Some 20)) = Some AVALIACAO
   \<and> classificadoPor (classifyProcedure (Some (loadGroups (Some [consultas_group])))
               ''Consulta por chat'' (Some 20)) = ''nome''"
  by code_simp

subsection \<open>The appointment cache across runs\<close>

lemma fetchPatientProposals_appts:
  "fetchPatientProposals a s pac d = (s1, ps) \<Longrightarrow> appointmentsCache s1 = appointmentsCache s"
  by (auto simp: fetchPatientProposals_def Let_def split: option.splits)

lemma fetchProcedureWithCache_appts:
  "fetchProcedureWithCache a s i = (s1, p) \<Longrightarrow> appointmentsCache s1 = appointmentsCache s"
  by (auto simp: fetchProcedureWithCache_def split: option.splits)

lemma invoiceDetailedItems_appts:
  "invoiceDetailedItems a s items = (s1, ds) \<Longrightarrow> appointmentsCache s1 = appointmentsCache s"
proof (induction items arbitrary: s s1 ds)
  case Nil
  then show ?case by simp
next
  case (Cons item items)
  obtain sa proc where f: "fetchProcedureWithCache a s (inv_procedimento_id item) = (sa, proc)"
    by (cases "fetchProcedureWithCache a s (inv_procedimento_id item)") auto
  obtain sb others where r: "invoiceDetailedItems a sa items = (sb, others)"
    by (cases "invoiceDetailedItems a sa items") auto
  have "s1 = sb" using Cons.prems f r by (simp add: Let_def)
  then show ?case
    using Cons.IH [OF r] fetchProcedureWithCache_appts [OF f] by simp
qed

lemma tryProposal_appts:
  assumes "tryProposal a s t = (s1, r)"
  shows "appointmentsCache s1 = appointmentsCache s"
proof (cases "PacienteID t")
  case None
  then show ?thesis using assms by (auto simp: tryProposal_def)
next
  case (Some pac)
  show ?thesis
  proof (cases "pac = 0")
    case True
    then show ?thesis using assms Some by (auto simp: tryProposal_def)
  next
    case False
    obtain sa proposals where f: "fetchPatientProposals a s pac (Data t) = (sa, proposals)"
      by (cases "fetchPatientProposals a s pac (Data t)") auto
    have "s1 = sa \<or> (\<exists>x. s1 = sa\<lparr>usedProposalIds := x\<rparr>)"
      using assms Some False f
      by (auto simp: tryProposal_def Let_def split: if_splits option.splits)
    then show ?thesis using fetchPatientProposals_appts [OF f] by auto
  qed
qed

lemma enrichFromReport_appts:
  assumes "enrichFromReport a s t = (s1, e)"
  shows "appointmentsCache s1 = appointmentsCache s"
proof (cases "length (reportNames (NomeProcedimento t)) \<le> 1")
  case True
  then show ?thesis using assms by (auto simp: enrichFromReport_def Let_def)
next
  case False
  show ?thesis
  proof (cases "NumeroInvoice t")
    case None
    then show ?thesis using assms False by (auto simp: enrichFromReport_def Let_def truthyId_def)
  next
    case (Some invoiceId)
    obtain sa ds where i: "invoiceDetailedItems a s (invoiceItems a invoiceId (Data t)) = (sa, ds)"
      by (cases "invoiceDetailedItems a s (invoiceItems a invoiceId (Data t))") auto
    show ?thesis using assms False Some i invoiceDetailedItems_appts [OF i]
      by (auto simp: enrichFromReport_def Let_def truthyId_def split: if_splits)
  qed
qed

lemma enrichTransactionWithItems_appts:
  assumes "enrichTransactionWithItems a s t = (s1, e)"
  shows "appointmentsCache s1 = appointmentsCache s"
proof (cases "isPaymentOnly a t")
  case True
  then show ?thesis using assms by (auto simp: enrichTransactionWithItems_def)
next
  case False
  obtain sa r where tp: "tryProposal a s t = (sa, r)"
    by (cases "tryProposal a s t") auto
  show ?thesis
  proof (cases r)
    case None
    then have "enrichFromReport a sa t = (s1, e)"
      using assms False tp by (simp add: enrichTransactionWithItems_def enrichAfterCheck_def)
    from enrichFromReport_appts [OF this] tryProposal_appts [OF tp] show ?thesis by simp
  next
    case (Some mp)
    then have "s1 = sa"
      using assms False tp by (simp add: enrichTransactionWithItems_def enrichAfterCheck_def)
    then show ?thesis using tryProposal_appts [OF tp] by simp
  qed
qed

lemma enrichAll_appts:
  "enrichAll a s ts = (s1, es) \<Longrightarrow> appointmentsCache s1 = appointmentsCache s"
proof (induction ts arbitrary: s s1 es)
  case Nil
  then show ?case by simp
next
  case (Cons mov movs)
  obtain sa e where h: "enrichTransactionWithItems a s mov = (sa, e)"
    by (cases "enrichTransactionWithItems a s mov") auto
  obtain sb es' where r: "enrichAll a sa movs = (sb, es')"
    by (cases "enrichAll a sa movs") auto
  have "s1 = sb" using Cons.prems h r by (auto simp: Let_def)
  then show ?case using Cons.IH [OF r] enrichTransactionWithItems_appts [OF h] by simp
qed

lemma fetchDetailedTransactions_keeps_appointmentsCache:
  "appointmentsCache (fst (fetchDetailedTransactions a s startDate endDate)) = appointmentsCache s"
proof (cases "financialMovement a startDate endDate")
  case None
  then show ?thesis by (simp add: fetchDetailedTransactions_def)
next
  case (Some transactions)
  obtain s1 es where ea: "enrichAll a (s\<lparr>usedProposalIds := {}\<rparr>) transactions = (s1, es)"
    by (cases "enrichAll a (s\<lparr>usedProposalIds := {}\<rparr>) transactions") auto
  show ?thesis using Some ea enrichAll_appts [OF ea]
    by (simp add: fetchDetailedTransactions_def)
qed

text \<open>
  Claim C9 on the code. \<open>fetchDetailedTransactions\<close> empties \<open>usedProposalIds\<close> and leaves
  the appointment cache alone
  (\<open>fetchDetailedTransactions_keeps_appointmentsCache\<close>), and nothing calls
  \<open>clearAppointmentsCache\<close>. After a first
  run on 2026-02-05 the cache holds patient 7's appointments around that day; at the start
  of the second run, on 2026-02-25, the entry is still there, so the evaluation item of the
  second run is marked \<open>SINAL_ANTECIPADO\<close> although the platform reports an appointment on
  that day; with the cache cleared the same item stays in the evaluation column.
\<close>

theorem appointment_cache_survives_batch_start:
  "usedProposalIds second_run_start = {}
   \<and> appointmentsCache second_run_start (Some 7) =
       Some \<lparr>appointments = [\<lparr>apt_data = scenario_date, telemedicina = False, notas = None\<rparr>],
             appts_apiError = False\<rparr>
   \<and> appointmentsCache (clearAppointmentsCache second_run_start) (Some 7) = None
   \<and> (case buildRow visits_api None second_run_start scenarioD_group later_date of
         Inl e \<Rightarrow> False
       | Inr acc \<Rightarrow> map colunaDestinoNome (classificationDetails acc) = [''SINAL_ANTECIPADO''])
   \<and> (case buildRow visits_api None (clearAppointmentsCache second_run_start)
              scenarioD_group later_date of
         Inl e \<Rightarrow> False
       | Inr acc \<Rightarrow> map colunaDestinoNome (classificationDetails acc) = [''AVALIACAO''])"
  by code_simp

end
